theory Spec2Isabelle
  imports Complex_Main "HOL-Library.Word"
begin

section \<open>Number model\<close>

text \<open>
  The program (\<^verbatim>\<open>grid_range_query.cc\<close>) computes with C++ \<^verbatim>\<open>float\<close>, the IEEE 754
  binary32 format. A float is a real number or one of the special values that an overflow or
  a division by zero creates and that every later operation propagates. The result of an
  arithmetic operation on finite values is the exact result rounded to the nearest
  representable value, a tie going to the value with the even significand (\<open>round32\<close>);
  each operation rounds its own result, as it does where \<^verbatim>\<open>float\<close> expressions are
  evaluated in the format itself. The constructor \<open>Fin\<close> carries a real number; the
  operations return representable ones. One thing is outside this model: zero has no sign
  (a division of a non-zero value by zero takes the sign of the dividend).

  \<^verbatim>\<open>int\<close> has 32 bits and \<^verbatim>\<open>size_t\<close> has 64 bits. The conversion of a float that, cut to
  an integer, does not fit the type is undefined behaviour and a result of its own; sums and
  products in \<^verbatim>\<open>size_t\<close> wrap around at \<open>2 ^ 64\<close>. Memory is not bounded: a vector can grow
  to any size.
\<close>

datatype float = Fin real | PosInf | NegInf | NaN

text \<open>The nearest integer, a tie going to the even one.\<close>

definition round_even :: "real \<Rightarrow> int" where
  "round_even y =
     (let f = \<lfloor>y\<rfloor>; d = y - of_int f
      in if d < 1 / 2 then f else if 1 / 2 < d then f + 1 else if even f then f else f + 1)"

text \<open>
  The binary exponent of a value: the least \<open>k\<close> from \<open>- 126\<close> (the exponent of the
  subnormal numbers) to \<open>127\<close> with \<open>\<bar>x\<bar> < 2 ^ (k + 1)\<close>, and \<open>127\<close> when there is none.
\<close>

fun find_expo :: "nat \<Rightarrow> int \<Rightarrow> real \<Rightarrow> int" where
  "find_expo 0 k x = k"
| "find_expo (Suc n) k x = (if \<bar>x\<bar> < 2 powi (k + 1) then k else find_expo n (k + 1) x)"

definition expo :: "real \<Rightarrow> int" where
  "expo x = find_expo 253 (- 126) x"

text \<open>
  Rounding to binary32: to a multiple of \<open>2 ^ (expo x - 23)\<close> (24 bits of significand), and
  to an infinity when the rounded value reaches \<open>2 ^ 128\<close>.
\<close>

definition round32 :: "real \<Rightarrow> float" where
  "round32 x =
     (let e = expo x - 23;
          r = of_int (round_even (x / 2 powi e)) * 2 powi e
      in if 2 powi 128 \<le> \<bar>r\<bar> then (if 0 < x then PosInf else NegInf) else Fin r)"

fun fneg :: "float \<Rightarrow> float" where
  "fneg (Fin u) = Fin (- u)"
| "fneg PosInf = NegInf"
| "fneg NegInf = PosInf"
| "fneg NaN = NaN"

fun fadd :: "float \<Rightarrow> float \<Rightarrow> float" where
  "fadd (Fin u) (Fin v) = round32 (u + v)"
| "fadd NaN _ = NaN"
| "fadd _ NaN = NaN"
| "fadd PosInf NegInf = NaN"
| "fadd NegInf PosInf = NaN"
| "fadd PosInf _ = PosInf"
| "fadd _ PosInf = PosInf"
| "fadd NegInf _ = NegInf"
| "fadd _ NegInf = NegInf"

definition fsub :: "float \<Rightarrow> float \<Rightarrow> float" where
  "fsub u v = fadd u (fneg v)"

fun is_zero :: "float \<Rightarrow> bool" where
  "is_zero (Fin u) = (u = 0)"
| "is_zero _ = False"

fun is_negative :: "float \<Rightarrow> bool" where
  "is_negative (Fin u) = (u < 0)"
| "is_negative NegInf = True"
| "is_negative _ = False"

fun fmul :: "float \<Rightarrow> float \<Rightarrow> float" where
  "fmul (Fin u) (Fin v) = round32 (u * v)"
| "fmul NaN _ = NaN"
| "fmul _ NaN = NaN"
| "fmul u v =
     (if is_zero u \<or> is_zero v then NaN
      else if is_negative u = is_negative v then PosInf else NegInf)"

fun fdiv :: "float \<Rightarrow> float \<Rightarrow> float" where
  "fdiv (Fin u) (Fin v) =
     (if v \<noteq> 0 then round32 (u / v)
      else if u = 0 then NaN
      else if 0 < u then PosInf else NegInf)"
| "fdiv NaN _ = NaN"
| "fdiv _ NaN = NaN"
| "fdiv (Fin u) _ = Fin 0"
| "fdiv u (Fin v) = (if is_negative u = (v < 0) then PosInf else NegInf)"
| "fdiv _ _ = NaN"

text \<open>Comparisons: every comparison with a NaN is false.\<close>

fun flt :: "float \<Rightarrow> float \<Rightarrow> bool" where
  "flt (Fin u) (Fin v) = (u < v)"
| "flt NaN _ = False"
| "flt _ NaN = False"
| "flt _ NegInf = False"
| "flt PosInf _ = False"
| "flt _ _ = True"

fun fle :: "float \<Rightarrow> float \<Rightarrow> bool" where
  "fle (Fin u) (Fin v) = (u \<le> v)"
| "fle NaN _ = False"
| "fle _ NaN = False"
| "fle NegInf _ = True"
| "fle _ PosInf = True"
| "fle _ _ = False"

definition fgt :: "float \<Rightarrow> float \<Rightarrow> bool" where
  "fgt u v = flt v u"

definition fge :: "float \<Rightarrow> float \<Rightarrow> bool" where
  "fge u v = fle v u"

fun fabs :: "float \<Rightarrow> float" where
  "fabs (Fin u) = Fin \<bar>u\<bar>"
| "fabs PosInf = PosInf"
| "fabs NegInf = PosInf"
| "fabs NaN = NaN"

text \<open>\<^verbatim>\<open>ceil\<close>: the ceiling of a float is a float, no rounding takes place.\<close>

fun fceil :: "float \<Rightarrow> float" where
  "fceil (Fin u) = Fin (of_int \<lceil>u\<rceil>)"
| "fceil u = u"

text \<open>The conversion of an \<^verbatim>\<open>int\<close> or a \<^verbatim>\<open>uint32_t\<close> to \<^verbatim>\<open>float\<close> rounds as well.\<close>

definition float_of_int :: "int \<Rightarrow> float" where
  "float_of_int i = round32 (of_int i)"

datatype error = AssertionFailed | UndefinedBehaviour

text \<open>
  A call either returns (\<open>Inr\<close>), stops the program at a failed \<^verbatim>\<open>assert\<close>
  (\<open>Inl AssertionFailed\<close>: the file is compiled without \<^verbatim>\<open>NDEBUG\<close>) or has undefined
  behaviour (\<open>Inl UndefinedBehaviour\<close>).

  \<^verbatim>\<open>int(v)\<close> truncates towards zero; the behaviour is undefined when the truncated value is
  not an \<^verbatim>\<open>int\<close>, that is, not from \<open>- 2 ^ 31\<close> to \<open>2 ^ 31 - 1\<close>.
\<close>

fun to_int :: "float \<Rightarrow> error + int" where
  "to_int (Fin u) =
     (let k = (if 0 \<le> u then \<lfloor>u\<rfloor> else \<lceil>u\<rceil>)
      in if - (2 ^ 31) \<le> k \<and> k < 2 ^ 31 then Inr k else Inl UndefinedBehaviour)"
| "to_int _ = Inl UndefinedBehaviour"

text \<open>
  The conversion to \<^verbatim>\<open>size_t\<close> truncates as well; the truncated value has to be from \<open>0\<close>
  to \<open>2 ^ 64 - 1\<close>.
\<close>

fun to_size :: "float \<Rightarrow> error + nat" where
  "to_size (Fin u) =
     (if - 1 < u \<and> \<lfloor>u\<rfloor> < 2 ^ 64 then Inr (nat \<lfloor>u\<rfloor>) else Inl UndefinedBehaviour)"
| "to_size _ = Inl UndefinedBehaviour"

section \<open>Geometry primitives\<close>

text \<open>
  \<^verbatim>\<open>PointLL\<close>, \<^verbatim>\<open>LineSegment2\<close> and \<^verbatim>\<open>AABB2\<close> come from the headers
  \<^verbatim>\<open>valhalla/midgard/*.h\<close>, which are not among the sources. The records hold what
  the accessors return: \<open>px\<close> and \<open>py\<close> for \<^verbatim>\<open>x()\<close> and \<^verbatim>\<open>y()\<close>, \<open>seg_a\<close> and
  \<open>seg_b\<close> for \<^verbatim>\<open>a()\<close> and \<^verbatim>\<open>b()\<close>, \<open>minx\<close>, ..., \<open>maxy\<close> for \<^verbatim>\<open>minx()\<close>, ...,
  \<^verbatim>\<open>maxy()\<close>. The coordinates are values of \<^verbatim>\<open>float\<close>, like the cell dimensions and
  the differences \<^verbatim>\<open>float dx = p.x() - bbox_.minx()\<close> that the source forms from them.
\<close>

type_synonym GraphId = "32 word"

record Point =
  px :: float
  py :: float

record LineSegment =
  seg_a :: Point
  seg_b :: Point

record BoundingBox =
  minx :: float
  miny :: float
  maxx :: float
  maxy :: float

text \<open>
  Modelled from the spec: \<^verbatim>\<open>AABB2::Width\<close> and \<^verbatim>\<open>AABB2::Height\<close> are not among the
  sources. Section 6 of the spec: "an axis-aligned bounding box type with min/max accessors,
  width/height, and a containment test".
\<close>

definition Width :: "BoundingBox \<Rightarrow> float" where
  "Width box = fsub (maxx box) (minx box)"

definition Height :: "BoundingBox \<Rightarrow> float" where
  "Height box = fsub (maxy box) (miny box)"

text \<open>
  Modelled from the spec: \<^verbatim>\<open>AABB2::Contains\<close> is not among the sources; it is the
  "containment test" of section 6. The test is the closed one: section 4.1 of the spec counts
  the points on the upper bounds of the region as points of the region. Whatever holds for
  the points this test accepts also holds for the points a test with open upper bounds
  accepts.
\<close>

definition Contains :: "BoundingBox \<Rightarrow> Point \<Rightarrow> bool" where
  "Contains box p =
     (fge (px p) (minx box) \<and> fge (py p) (miny box) \<and>
      fle (px p) (maxx box) \<and> fle (py p) (maxy box))"

section \<open>The grid\<close>

text \<open>
  The members of the class; \<open>m_bbox\<close> stands for \<^verbatim>\<open>bbox_\<close>, \<open>m_num_rows\<close> for
  \<^verbatim>\<open>num_rows_\<close>, and so on (a name cannot end with an underscore here).
\<close>

record GridRangeQuery =
  m_bbox :: BoundingBox
  m_cell_width :: float
  m_cell_height :: float
  m_num_rows :: nat
  m_num_cols :: nat
  m_items :: "GraphId list list"

text \<open>\<^verbatim>\<open>std::vector::resize\<close>: cut, or fill up with empty buckets.\<close>

definition resize :: "nat \<Rightarrow> 'a list list \<Rightarrow> 'a list list" where
  "resize n xs = take n xs @ replicate (n - length xs) []"

text \<open>
  \<^verbatim>\<open>Init\<close> assigns every member and resizes \<^verbatim>\<open>items_\<close>; its first argument is
  \<^verbatim>\<open>items_\<close> as the call finds it. The source assigns the quotient of the \<^emph>\<open>width\<close> to
  \<^verbatim>\<open>num_rows_\<close> and the quotient of the \<^emph>\<open>height\<close> to \<^verbatim>\<open>num_cols_\<close>. The product
  \<^verbatim>\<open>num_cols_ * num_rows_\<close> is a product in \<^verbatim>\<open>size_t\<close>.
\<close>

definition Init ::
  "GraphId list list \<Rightarrow> BoundingBox \<Rightarrow> float \<Rightarrow> float \<Rightarrow> error + GridRangeQuery" where
  "Init old_items bbox cell_width cell_height =
     (case to_size (fceil (fdiv (Width bbox) cell_width)) of
        Inl e \<Rightarrow> Inl e
      | Inr num_rows \<Rightarrow>
         (case to_size (fceil (fdiv (Height bbox) cell_height)) of
            Inl e \<Rightarrow> Inl e
          | Inr num_cols \<Rightarrow>
             Inr \<lparr>m_bbox = bbox, m_cell_width = cell_width, m_cell_height = cell_height,
                  m_num_rows = num_rows, m_num_cols = num_cols,
                  m_items = resize ((num_cols * num_rows) mod 2 ^ 64) old_items\<rparr>))"

text \<open>The two constructors; a new object has no buckets.\<close>

definition GridRangeQuery_cells :: "BoundingBox \<Rightarrow> float \<Rightarrow> float \<Rightarrow> error + GridRangeQuery" where
  "GridRangeQuery_cells bbox cell_width cell_height = Init [] bbox cell_width cell_height"

definition GridRangeQuery_counts ::
  "BoundingBox \<Rightarrow> 32 word \<Rightarrow> 32 word \<Rightarrow> error + GridRangeQuery" where
  "GridRangeQuery_counts bbox num_cols num_rows =
     Init [] bbox (fdiv (Width bbox) (float_of_int (uint num_cols)))
                  (fdiv (Height bbox) (float_of_int (uint num_rows)))"

definition GridCoordinates :: "GridRangeQuery \<Rightarrow> Point \<Rightarrow> error + (int \<times> int)" where
  "GridCoordinates g p =
     (let dx = fsub (px p) (minx (m_bbox g));
          dy = fsub (py p) (miny (m_bbox g))
      in case to_int (fdiv dx (m_cell_width g)) of
           Inl e \<Rightarrow> Inl e
         | Inr i \<Rightarrow>
            (case to_int (fdiv dy (m_cell_height g)) of
               Inl e \<Rightarrow> Inl e
             | Inr j \<Rightarrow> Inr (i, j)))"

text \<open>
  \<^verbatim>\<open>CellBoundingBox\<close>: \<open>i\<close> and \<open>j\<close> are values of \<^verbatim>\<open>int\<close>, converted to \<^verbatim>\<open>float\<close> for
  the product. (For \<open>i = 2 ^ 31 - 1\<close> the sum \<^verbatim>\<open>i + 1\<close> of the source overflows; the model
  takes the integer \<open>i + 1\<close> there.)
\<close>

definition CellBoundingBox :: "GridRangeQuery \<Rightarrow> int \<Rightarrow> int \<Rightarrow> BoundingBox" where
  "CellBoundingBox g i j =
     \<lparr>minx = fadd (minx (m_bbox g)) (fmul (float_of_int i) (m_cell_width g)),
      miny = fadd (miny (m_bbox g)) (fmul (float_of_int j) (m_cell_height g)),
      maxx = fadd (minx (m_bbox g)) (fmul (float_of_int (i + 1)) (m_cell_width g)),
      maxy = fadd (miny (m_bbox g)) (fmul (float_of_int (j + 1)) (m_cell_height g))\<rparr>"

text \<open>\<^verbatim>\<open>Unlerp\<close>: "Return t such that p = a + t * (b - a)".\<close>

definition Unlerp :: "Point \<Rightarrow> Point \<Rightarrow> Point \<Rightarrow> float" where
  "Unlerp a b p =
     (if fgt (fabs (fsub (px b) (px a))) (fabs (fsub (py b) (py a)))
      then fdiv (fsub (px p) (px a)) (fsub (px b) (px a))
      else fdiv (fsub (py p) (py a)) (fsub (py b) (py a)))"

text \<open>
  The bucket that \<^verbatim>\<open>items_[current_cell.first + current_cell.second * num_rows_]\<close> names.
  The two \<^verbatim>\<open>int\<close> values are converted to \<^verbatim>\<open>size_t\<close> and the sum is formed there, modulo
  \<open>2 ^ 64\<close>. An index outside the vector is undefined behaviour.
\<close>

definition bucket_index :: "GridRangeQuery \<Rightarrow> int \<times> int \<Rightarrow> error + nat" where
  "bucket_index g current_cell =
     (let idx = (fst current_cell + snd current_cell * int (m_num_rows g)) mod 2 ^ 64
      in if idx < int (length (m_items g)) then Inr (nat idx)
         else Inl UndefinedBehaviour)"

definition push_back :: "GridRangeQuery \<Rightarrow> nat \<Rightarrow> GraphId \<Rightarrow> GridRangeQuery" where
  "push_back g idx edgeid = g\<lparr>m_items := (m_items g)[idx := m_items g ! idx @ [edgeid]]\<rparr>"

text \<open>
  The loop of \<^verbatim>\<open>AddLineSegment\<close>. Its body records \<^verbatim>\<open>edgeid\<close> in the bucket of the
  cell of \<^verbatim>\<open>current_point\<close> and assigns neither \<^verbatim>\<open>current_point\<close> nor \<^verbatim>\<open>start\<close> nor
  \<^verbatim>\<open>end\<close>. A run that never leaves the loop is the value \<open>None\<close>.
\<close>

partial_function (option) AddLineSegment_loop ::
  "GridRangeQuery \<Rightarrow> GraphId \<Rightarrow> Point \<Rightarrow> Point \<Rightarrow> Point \<Rightarrow> (error + GridRangeQuery) option" where
  "AddLineSegment_loop g edgeid start endp current_point =
     (if flt (Unlerp start endp current_point) (Fin 1) then
        (case GridCoordinates g current_point of
           Inl e \<Rightarrow> Some (Inl e)
         | Inr current_cell \<Rightarrow>
            (case bucket_index g current_cell of
               Inl e \<Rightarrow> Some (Inl e)
             | Inr idx \<Rightarrow> AddLineSegment_loop (push_back g idx edgeid) edgeid start endp current_point))
      else Some (Inr g))"

definition AddLineSegment ::
  "GridRangeQuery \<Rightarrow> GraphId \<Rightarrow> LineSegment \<Rightarrow> (error + GridRangeQuery) option" where
  "AddLineSegment g edgeid segment =
     (if \<not> (Contains (m_bbox g) (seg_a segment) \<and> Contains (m_bbox g) (seg_b segment))
      then Some (Inl AssertionFailed)
      else AddLineSegment_loop g edgeid (seg_a segment) (seg_b segment) (seg_a segment))"

text \<open>\<^verbatim>\<open>Query\<close>: the body is \<^verbatim>\<open>return {};\<close>.\<close>

definition Query :: "GridRangeQuery \<Rightarrow> BoundingBox \<Rightarrow> GraphId list" where
  "Query g range_box = []"

text \<open>
  Modelled from the spec: \<^verbatim>\<open>LineSegment2::Intersect\<close> is not among the sources. Section 6
  of the spec: "a method returning whether it intersects another segment and, if so, the
  intersection point". The model is the intersection point of two segments with finite
  endpoints, in exact arithmetic: it solves \<open>a + t (b - a) = c + u (d - c)\<close> for the two
  parameters; the segments intersect when the solution is unique and both parameters lie in
  \<open>[0, 1]\<close>, and the point is \<open>a + t (b - a)\<close>. Parallel segments have no intersection
  point, and neither has a segment with an endpoint that is not finite.
\<close>

definition finite_point :: "Point \<Rightarrow> (real \<times> real) option" where
  "finite_point p = (case (px p, py p) of (Fin u, Fin v) \<Rightarrow> Some (u, v) | _ \<Rightarrow> None)"

definition Intersect :: "LineSegment \<Rightarrow> LineSegment \<Rightarrow> Point option" where
  "Intersect s e =
     (case (finite_point (seg_a s), finite_point (seg_b s),
            finite_point (seg_a e), finite_point (seg_b e)) of
        (Some (a1, a2), Some (b1, b2), Some (c1, c2), Some (d1, d2)) \<Rightarrow>
          (let sx = b1 - a1; sy = b2 - a2;
               ex = d1 - c1; ey = d2 - c2;
               cx = c1 - a1; cy = c2 - a2;
               denom = ex * sy - ey * sx;
               t = (ex * cy - ey * cx) / denom;
               u = (sx * cy - sy * cx) / denom
           in if denom = 0 then None
              else if t < 0 \<or> 1 < t then None
              else if u < 0 \<or> 1 < u then None
              else Some \<lparr>px = Fin (a1 + sx * t), py = Fin (a2 + sy * t)\<rparr>)
      | _ \<Rightarrow> None)"

text \<open>\<^verbatim>\<open>if (segment.Intersect(e, intersect)) intersects.push_back(intersect);\<close>\<close>

fun push_if :: "Point list \<Rightarrow> Point option \<Rightarrow> Point list" where
  "push_if intersects None = intersects"
| "push_if intersects (Some intersect) = intersects @ [intersect]"

definition CellLineSegmentIntersections ::
  "GridRangeQuery \<Rightarrow> int \<Rightarrow> int \<Rightarrow> LineSegment \<Rightarrow> Point list" where
  "CellLineSegmentIntersections g i j segment =
     (let cell = CellBoundingBox g i j;
          e1 = \<lparr>seg_a = \<lparr>px = minx cell, py = miny cell\<rparr>,
                seg_b = \<lparr>px = maxx cell, py = miny cell\<rparr>\<rparr>;
          e2 = \<lparr>seg_a = \<lparr>px = maxx cell, py = miny cell\<rparr>,
                seg_b = \<lparr>px = maxx cell, py = maxy cell\<rparr>\<rparr>;
          e3 = \<lparr>seg_a = \<lparr>px = maxx cell, py = maxy cell\<rparr>,
                seg_b = \<lparr>px = minx cell, py = maxy cell\<rparr>\<rparr>;
          e4 = \<lparr>seg_a = \<lparr>px = minx cell, py = maxy cell\<rparr>,
                seg_b = \<lparr>px = minx cell, py = miny cell\<rparr>\<rparr>
      in push_if (push_if (push_if (push_if [] (Intersect segment e1))
           (Intersect segment e2)) (Intersect segment e3)) (Intersect segment e4))"

section \<open>Example grids and points\<close>

text \<open>
  The grid of the source's tests:
  \<^verbatim>\<open>BoundingBox bbox(0, 0, 100, 100); GridRangeQuery grid(bbox, 100u, 100u);\<close>
\<close>

definition test_bbox :: BoundingBox where
  "test_bbox = \<lparr>minx = Fin 0, miny = Fin 0, maxx = Fin 100, maxy = Fin 100\<rparr>"

definition test_grid :: GridRangeQuery where
  "test_grid =
     \<lparr>m_bbox = test_bbox, m_cell_width = Fin 1, m_cell_height = Fin 1,
      m_num_rows = 100, m_num_cols = 100, m_items = replicate 10000 []\<rparr>"

text \<open>
  A region that is wider than high, divided into 4 columns and 2 rows:
  \<^verbatim>\<open>GridRangeQuery(BoundingBox(0, 0, 100, 50), 4u, 2u)\<close>.
\<close>

definition wide_bbox :: BoundingBox where
  "wide_bbox = \<lparr>minx = Fin 0, miny = Fin 0, maxx = Fin 100, maxy = Fin 50\<rparr>"

definition wide_grid :: GridRangeQuery where
  "wide_grid =
     \<lparr>m_bbox = wide_bbox, m_cell_width = Fin 25, m_cell_height = Fin 25,
      m_num_rows = 4, m_num_cols = 2, m_items = replicate 8 []\<rparr>"

text \<open>
  The unit square in 10 by 10 cells: \<^verbatim>\<open>GridRangeQuery(BoundingBox(0, 0, 1, 1), 10u, 10u)\<close>.
  The cell width is the float nearest to \<open>1 / 10\<close>, which is \<open>13421773 / 2 ^ 27\<close>.
\<close>

definition unit_bbox :: BoundingBox where
  "unit_bbox = \<lparr>minx = Fin 0, miny = Fin 0, maxx = Fin 1, maxy = Fin 1\<rparr>"

definition tenth_grid :: GridRangeQuery where
  "tenth_grid =
     \<lparr>m_bbox = unit_bbox, m_cell_width = Fin (13421773 / 134217728),
      m_cell_height = Fin (13421773 / 134217728),
      m_num_rows = 10, m_num_cols = 10, m_items = replicate 100 []\<rparr>"

text \<open>
  All longitudes and latitudes in cells of one degree:
  \<^verbatim>\<open>GridRangeQuery(BoundingBox(-180, -90, 180, 90), 360u, 180u)\<close>.
\<close>

definition world_bbox :: BoundingBox where
  "world_bbox = \<lparr>minx = Fin (- 180), miny = Fin (- 90), maxx = Fin 180, maxy = Fin 90\<rparr>"

definition world_grid :: GridRangeQuery where
  "world_grid =
     \<lparr>m_bbox = world_bbox, m_cell_width = Fin 1, m_cell_height = Fin 1,
      m_num_rows = 360, m_num_cols = 180, m_items = replicate 64800 []\<rparr>"

text \<open>
  A square region with \<open>2 ^ 32\<close> cells of size 1 in each direction:
  \<^verbatim>\<open>GridRangeQuery(BoundingBox(0, 0, 4294967296, 4294967296), 1.0f, 1.0f)\<close>.
\<close>

definition huge_bbox :: BoundingBox where
  "huge_bbox = \<lparr>minx = Fin 0, miny = Fin 0, maxx = Fin 4294967296, maxy = Fin 4294967296\<rparr>"

definition huge_grid :: GridRangeQuery where
  "huge_grid =
     \<lparr>m_bbox = huge_bbox, m_cell_width = Fin 1, m_cell_height = Fin 1,
      m_num_rows = 4294967296, m_num_cols = 4294967296, m_items = []\<rparr>"

text \<open>
  A square region of side 7 in cells of width and height \<open>0.7\<close>:
  \<^verbatim>\<open>GridRangeQuery(BoundingBox(0, 0, 7, 7), 0.7f, 0.7f)\<close>. The \<^verbatim>\<open>float\<close> nearest to
  \<open>0.7\<close> is \<open>11744051 / 2 ^ 24\<close>, a little less than \<open>0.7\<close>.
\<close>

definition seven_bbox :: BoundingBox where
  "seven_bbox = \<lparr>minx = Fin 0, miny = Fin 0, maxx = Fin 7, maxy = Fin 7\<rparr>"

definition seven_grid :: GridRangeQuery where
  "seven_grid =
     \<lparr>m_bbox = seven_bbox, m_cell_width = Fin (11744051 / 16777216),
      m_cell_height = Fin (11744051 / 16777216),
      m_num_rows = 10, m_num_cols = 10, m_items = replicate 100 []\<rparr>"

text \<open>
  \<open>point u v\<close> is the point with the coordinates \<open>u\<close> and \<open>v\<close>; \<open>point32 u v\<close> is the
  point \<^verbatim>\<open>{u, v}\<close> of the source, whose two \<^verbatim>\<open>double\<close> literals are converted to
  \<^verbatim>\<open>float\<close>; \<open>segment_of p q\<close> is \<^verbatim>\<open>LineSegment(p, q)\<close>.
\<close>

definition point :: "real \<Rightarrow> real \<Rightarrow> Point" where
  "point u v = \<lparr>px = Fin u, py = Fin v\<rparr>"

definition point32 :: "real \<Rightarrow> real \<Rightarrow> Point" where
  "point32 u v = \<lparr>px = round32 u, py = round32 v\<rparr>"

definition segment_of :: "Point \<Rightarrow> Point \<Rightarrow> LineSegment" where
  "segment_of p q = \<lparr>seg_a = p, seg_b = q\<rparr>"

section \<open>Predicates of the claims\<close>

text \<open>The current point has a cell, and the cell has a bucket: the loop body can run.\<close>

definition can_record :: "GridRangeQuery \<Rightarrow> Point \<Rightarrow> bool" where
  "can_record g c =
     (\<exists>cell idx. GridCoordinates g c = Inr cell \<and> bucket_index g cell = Inr idx)"

text \<open>A point strictly inside a box: on none of its four sides.\<close>

definition strictly_inside :: "BoundingBox \<Rightarrow> Point \<Rightarrow> bool" where
  "strictly_inside box p =
     (flt (minx box) (px p) \<and> flt (px p) (maxx box) \<and>
      flt (miny box) (py p) \<and> flt (py p) (maxy box))"

text \<open>
  The four edges of a cell in the order of section 4.4 of the spec: bottom, right, top, left.
\<close>

definition cell_edges :: "BoundingBox \<Rightarrow> LineSegment list" where
  "cell_edges cell =
     [segment_of \<lparr>px = minx cell, py = miny cell\<rparr> \<lparr>px = maxx cell, py = miny cell\<rparr>,
      segment_of \<lparr>px = maxx cell, py = miny cell\<rparr> \<lparr>px = maxx cell, py = maxy cell\<rparr>,
      segment_of \<lparr>px = maxx cell, py = maxy cell\<rparr> \<lparr>px = minx cell, py = maxy cell\<rparr>,
      segment_of \<lparr>px = minx cell, py = maxy cell\<rparr> \<lparr>px = minx cell, py = miny cell\<rparr>]"

text \<open>
  The point at parameter \<open>t\<close> of the line \<open>(a1, a2) + t (s1, s2)\<close> lies in the rectangle
  \<open>[X0, X1] \<times> [Y0, Y1]\<close>, on one of its four sides, and the line is not parallel to that
  side.
\<close>

definition boundary_hit ::
  "real \<Rightarrow> real \<Rightarrow> real \<Rightarrow> real \<Rightarrow> real \<Rightarrow> real \<Rightarrow> real \<Rightarrow> real \<Rightarrow> real \<Rightarrow> bool" where
  "boundary_hit X0 Y0 X1 Y1 a1 a2 s1 s2 t =
     (X0 \<le> a1 + s1 * t \<and> a1 + s1 * t \<le> X1 \<and> Y0 \<le> a2 + s2 * t \<and> a2 + s2 * t \<le> Y1 \<and>
      ((a2 + s2 * t = Y0 \<or> a2 + s2 * t = Y1) \<and> s2 \<noteq> 0 \<or>
       (a1 + s1 * t = X0 \<or> a1 + s1 * t = X1) \<and> s1 \<noteq> 0))"

section \<open>Facts about rounding\<close>

lemma round_even_of_int [simp]: "round_even (of_int z) = z"
  by (simp add: round_even_def)


lemma pow2_less_imp: "(2::real) powi a < 2 powi b \<Longrightarrow> a < b"
proof (rule ccontr)
  assume lt: "(2::real) powi a < 2 powi b" and "\<not> a < b"
  then have "(2::real) powi b \<le> 2 powi a"
    by (intro power_int_increasing) auto
  with lt show False by simp
qed

lemma find_expo_eq:
  "k \<le> j \<Longrightarrow> j \<le> k + int n \<Longrightarrow> (j = k \<or> 2 powi j \<le> \<bar>x\<bar>) \<Longrightarrow> \<bar>x\<bar> < 2 powi (j + 1) \<Longrightarrow>
   find_expo n k x = j"
proof (induction n arbitrary: k)
  case 0
  then show ?case by simp
next
  case (Suc n)
  show ?case
  proof (cases "\<bar>x\<bar> < 2 powi (k + 1)")
    case True
    have "j = k"
    proof (rule ccontr)
      assume "j \<noteq> k"
      with Suc.prems have "2 powi j \<le> \<bar>x\<bar>" "k < j" by auto
      with True have "(2::real) powi j < 2 powi (k + 1)" by linarith
      then have "j < k + 1" by (rule pow2_less_imp)
      with \<open>k < j\<close> show False by simp
    qed
    with True show ?thesis by simp
  next
    case False
    with Suc.prems have "(2::real) powi (k + 1) < 2 powi (j + 1)" by linarith
    then have kj: "k < j" using pow2_less_imp by fastforce
    with Suc.prems have "find_expo n (k + 1) x = j"
      by (intro Suc.IH) auto
    with False show ?thesis by simp
  qed
qed

lemma find_expo_le:
  "k \<le> j \<Longrightarrow> \<bar>x\<bar> < 2 powi (j + 1) \<Longrightarrow> find_expo n k x \<le> j"
proof (induction n arbitrary: k)
  case 0
  then show ?case by simp
next
  case (Suc n)
  show ?case
  proof (cases "\<bar>x\<bar> < 2 powi (k + 1)")
    case True
    with Suc.prems show ?thesis by simp
  next
    case False
    with Suc.prems have "(2::real) powi (k + 1) < 2 powi (j + 1)" by linarith
    then have "k < j" using pow2_less_imp by fastforce
    with Suc.prems have "find_expo n (k + 1) x \<le> j"
      by (intro Suc.IH) auto
    with False show ?thesis by simp
  qed
qed

text \<open>The exponent of a value, from the two powers of two that enclose it.\<close>

lemma expo_eq:
  assumes "- 126 \<le> k" "k \<le> 127" "k = - 126 \<or> 2 powi k \<le> \<bar>x\<bar>" "\<bar>x\<bar> < 2 powi (k + 1)"
  shows "expo x = k"
  unfolding expo_def using assms by (intro find_expo_eq) auto

lemma expo_le: "- 126 \<le> j \<Longrightarrow> \<bar>x\<bar> < 2 powi (j + 1) \<Longrightarrow> expo x \<le> j"
  unfolding expo_def by (rule find_expo_le)

lemma find_expo_top:
  "(\<And>j. k \<le> j \<Longrightarrow> j < k + int n \<Longrightarrow> 2 powi (j + 1) \<le> \<bar>x\<bar>) \<Longrightarrow>
   find_expo n k x = k + int n"
proof (induction n arbitrary: k)
  case 0
  show ?case by simp
next
  case (Suc n)
  have "2 powi (k + 1) \<le> \<bar>x\<bar>"
    by (rule Suc.prems) simp_all
  moreover have "find_expo n (k + 1) x = k + 1 + int n"
    by (rule Suc.IH) (simp add: Suc.prems)
  ultimately show ?case by simp
qed

text \<open>The exponent of a value of at least \<open>2 ^ 127\<close> is the greatest one.\<close>

lemma expo_top:
  assumes "2 powi 127 \<le> \<bar>x\<bar>"
  shows "expo x = 127"
proof -
  have "find_expo 253 (- 126) x = - 126 + int 253"
  proof (rule find_expo_top)
    fix j :: int
    assume "- 126 \<le> j" "j < - 126 + int 253"
    then have "(2::real) powi (j + 1) \<le> 2 powi 127"
      by (intro power_int_increasing) auto
    with assms show "2 powi (j + 1) \<le> \<bar>x\<bar>"
      by linarith
  qed
  then show ?thesis
    by (simp add: expo_def)
qed

text \<open>
  Rounding leaves a representable value as it is: a value \<open>m * 2 ^ e\<close> with a significand
  \<open>m\<close> of at most 24 bits and an exponent \<open>e\<close> of the format.
\<close>

lemma round32_exact:
  assumes x: "x = of_int m * 2 powi e" and m: "\<bar>m\<bar> < 2 ^ 24" and e: "- 149 \<le> e" "e \<le> 104"
  shows "round32 x = Fin x"
proof -
  define E where "E = expo x - 23"
  have "\<bar>x\<bar> = of_int \<bar>m\<bar> * 2 powi e"
    by (simp add: x abs_mult)
  also have "\<dots> < 2 ^ 24 * 2 powi e"
  proof -
    have "(of_int \<bar>m\<bar> :: real) < of_int (2 ^ 24)" using m by (simp only: of_int_less_iff)
    then show ?thesis by (intro mult_strict_right_mono) simp_all
  qed
  also have "\<dots> = 2 powi (e + 24)"
    by (simp add: power_int_add)
  finally have ax: "\<bar>x\<bar> < 2 powi (e + 24)" .
  have "\<bar>x\<bar> < 2 powi (max (- 126) (e + 23) + 1)"
  proof -
    have "(2::real) powi (e + 24) \<le> 2 powi (max (- 126) (e + 23) + 1)"
      by (intro power_int_increasing) auto
    with ax show ?thesis by linarith
  qed
  then have "expo x \<le> max (- 126) (e + 23)"
    by (intro expo_le) auto
  with e have Ee: "E \<le> e" by (simp add: E_def)
  define d where "d = nat (e - E)"
  have "x / 2 powi E = of_int m * 2 powi (e - E)"
    by (simp add: x power_int_diff)
  also have "\<dots> = of_int (m * 2 ^ d)"
    using Ee by (simp add: d_def power_int_nonneg_exp)
  finally have q: "x / 2 powi E = of_int (m * 2 ^ d)" .
  have r: "of_int (round_even (x / 2 powi E)) * 2 powi E = x"
    unfolding q round_even_of_int using q by (simp add: field_simps)
  have "\<bar>x\<bar> < 2 powi 128"
  proof -
    have "(2::real) powi (e + 24) \<le> 2 powi 128"
      using e by (intro power_int_increasing) auto
    with ax show ?thesis by linarith
  qed
  then show ?thesis
    unfolding round32_def Let_def E_def[symmetric] r by simp
qed

lemma round32_of_int: "\<bar>n\<bar> < 2 ^ 24 \<Longrightarrow> round32 (of_int n) = Fin (of_int n)"
  using round32_exact[of "of_int n" n 0] by simp

lemma round32_0 [simp]: "round32 0 = Fin 0"
  using round32_of_int[of 0] by simp

lemma round32_1 [simp]: "round32 1 = Fin 1"
  using round32_of_int[of 1] by simp

lemma round32_minus_1 [simp]: "round32 (- 1) = Fin (- 1)"
  using round32_of_int[of "- 1"] by simp

lemma round32_numeral [simp]:
  "(numeral w :: int) < 16777216 \<Longrightarrow> round32 (numeral w) = Fin (numeral w)"
  using round32_of_int[of "numeral w"] by simp

lemma round32_neg_numeral [simp]:
  "(numeral w :: int) < 16777216 \<Longrightarrow> round32 (- numeral w) = Fin (- numeral w)"
  using round32_of_int[of "- numeral w"] by simp

lemma round32_dyadic:
  "\<bar>m\<bar> < 2 ^ 24 \<Longrightarrow> n \<le> 149 \<Longrightarrow> round32 (of_int m / 2 ^ n) = Fin (of_int m / 2 ^ n)"
  using round32_exact[of "of_int m / 2 ^ n" m "- int n"]
  by (simp add: power_int_minus field_simps)

text \<open>Rounding gives no NaN, and it gives nothing negative for a value that is not negative.\<close>

lemma round32_not_NaN [simp]: "round32 x \<noteq> NaN"
  by (simp add: round32_def Let_def)



text \<open>The values of the examples that are not representable, rounded.\<close>

lemma round32_half_numerals [simp]:
  "round32 (5 / 2) = Fin (5 / 2)" "round32 (7 / 2) = Fin (7 / 2)"
  "round32 (11 / 2) = Fin (11 / 2)" "round32 (25 / 2) = Fin (25 / 2)"
  "round32 (179 / 2) = Fin (179 / 2)" "round32 (359 / 2) = Fin (359 / 2)"
  "round32 (1 / 2) = Fin (1 / 2)"
  using round32_dyadic[of 5 1] round32_dyadic[of 7 1] round32_dyadic[of 11 1]
    round32_dyadic[of 25 1] round32_dyadic[of 179 1] round32_dyadic[of 359 1]
    round32_dyadic[of 1 1]
  by simp_all

lemma round32_one_tenth: "round32 (1 / 10) = Fin (13421773 / 134217728)"
proof -
  have "expo (1 / 10) = - 4"
    by (rule expo_eq) simp_all
  then show ?thesis
    by (simp add: round32_def round_even_def)
qed

lemma round32_nine_tenths: "round32 (9 / 10) = Fin (15099494 / 16777216)"
proof -
  have "expo (9 / 10) = - 1"
    by (rule expo_eq) simp_all
  then show ?thesis
    by (simp add: round32_def round_even_def)
qed

lemma round32_one_twentieth: "round32 (1 / 20) = Fin (13421773 / 268435456)"
proof -
  have "expo (1 / 20) = - 5"
    by (rule expo_eq) simp_all
  then show ?thesis
    by (simp add: round32_def round_even_def)
qed

lemma round32_seven_tenths: "round32 (7 / 10) = Fin (11744051 / 16777216)"
proof -
  have "expo (7 / 10) = - 1"
    by (rule expo_eq) simp_all
  then show ?thesis
    by (simp add: round32_def round_even_def)
qed


lemma round32_179_99998: "round32 (8999999 / 50000) = Fin (11796479 / 65536)"
proof -
  have "expo (8999999 / 50000) = 7"
    by (rule expo_eq) simp_all
  then show ?thesis
    by (simp add: round32_def round_even_def)
qed

section \<open>Facts about the example grids\<close>

lemma test_grid_constructed: "GridRangeQuery_counts test_bbox 100 100 = Inr test_grid"
  by (simp add: GridRangeQuery_counts_def Init_def Width_def Height_def fsub_def
      test_bbox_def test_grid_def float_of_int_def resize_def)

lemma test_grid_simps [simp]:
  "m_bbox test_grid = test_bbox" "m_cell_width test_grid = Fin 1"
  "m_cell_height test_grid = Fin 1" "m_num_rows test_grid = 100"
  "m_num_cols test_grid = 100" "length (m_items test_grid) = 10000"
  by (simp_all add: test_grid_def)

lemma test_bbox_simps [simp]:
  "minx test_bbox = Fin 0" "miny test_bbox = Fin 0"
  "maxx test_bbox = Fin 100" "maxy test_bbox = Fin 100"
  by (simp_all add: test_bbox_def)

lemma wide_grid_constructed: "GridRangeQuery_counts wide_bbox 4 2 = Inr wide_grid"
  by (simp add: GridRangeQuery_counts_def Init_def Width_def Height_def fsub_def
      wide_bbox_def wide_grid_def float_of_int_def resize_def)

lemma point_simps [simp]: "px (point u v) = Fin u" "py (point u v) = Fin v"
  by (simp_all add: point_def)

lemma segment_of_simps [simp]: "seg_a (segment_of p q) = p" "seg_b (segment_of p q) = q"
  by (simp_all add: segment_of_def)

section \<open>The loop of AddLineSegment\<close>

lemma GridCoordinates_push_back [simp]:
  "GridCoordinates (push_back g idx k) p = GridCoordinates g p"
  by (simp add: GridCoordinates_def push_back_def cong: sum.case_cong)

lemma bucket_index_push_back [simp]:
  "bucket_index (push_back g idx k) cell = bucket_index g cell"
  by (simp add: bucket_index_def push_back_def)

lemma can_record_push_back [simp]: "can_record (push_back g idx k) c = can_record g c"
  by (simp add: can_record_def)

text \<open>
  A run that enters the loop with a recordable current point never leaves it: the body
  changes a bucket and nothing that the loop condition or the index reads.
\<close>

lemma loop_returns_only_if:
  assumes ret: "AddLineSegment_loop g0 k0 s0 e0 c0 = Some r0"
  shows "\<not> (flt (Unlerp s0 e0 c0) (Fin 1) \<and> can_record g0 c0)"
proof (rule AddLineSegment_loop.raw_induct
    [where P = "\<lambda>g k s e c r. \<not> (flt (Unlerp s e c) (Fin 1) \<and> can_record g c)", OF _ ret])
  fix f g k s e c r
  assume IH: "\<And>g k s e c r. f g k s e c = Some r \<Longrightarrow>
      \<not> (flt (Unlerp s e c) (Fin 1) \<and> can_record g c)"
    and body: "(if flt (Unlerp s e c) (Fin 1) then
        (case GridCoordinates g c of
           Inl e \<Rightarrow> Some (Inl e)
         | Inr current_cell \<Rightarrow>
            (case bucket_index g current_cell of
               Inl e \<Rightarrow> Some (Inl e)
             | Inr idx \<Rightarrow> f (push_back g idx k) k s e c))
      else Some (Inr g)) = Some r"
  show "\<not> (flt (Unlerp s e c) (Fin 1) \<and> can_record g c)"
  proof
    assume a: "flt (Unlerp s e c) (Fin 1) \<and> can_record g c"
    then obtain cell idx where
      ci: "GridCoordinates g c = Inr cell" "bucket_index g cell = Inr idx"
      by (auto simp: can_record_def)
    from a ci body have "f (push_back g idx k) k s e c = Some r"
      by simp
    from IH[OF this] a show False
      by simp
  qed
qed

lemma loop_never_returns:
  assumes "flt (Unlerp s e c) (Fin 1)" and "can_record g c"
  shows "AddLineSegment_loop g k s e c = None"
proof (cases "AddLineSegment_loop g k s e c")
  case None
  then show ?thesis .
next
  case (Some r)
  from loop_returns_only_if[OF this] assms show ?thesis
    by simp
qed

text \<open>
  The loop in closed form: it returns without a pass when the condition is false at the
  start, it ends in undefined behaviour when the start point has no cell or the cell has no
  bucket, and it never returns otherwise.
\<close>

lemma AddLineSegment_loop_eq:
  "AddLineSegment_loop g k s e c =
     (if flt (Unlerp s e c) (Fin 1) then
        (case GridCoordinates g c of
           Inl err \<Rightarrow> Some (Inl err)
         | Inr cell \<Rightarrow>
            (case bucket_index g cell of
               Inl err \<Rightarrow> Some (Inl err)
             | Inr idx \<Rightarrow> None))
      else Some (Inr g))"
proof (cases "flt (Unlerp s e c) (Fin 1) \<and> can_record g c")
  case True
  then show ?thesis
    by (auto simp: loop_never_returns can_record_def)
next
  case False
  then show ?thesis
    by (subst AddLineSegment_loop.simps) (auto simp: can_record_def split: sum.splits)
qed

text \<open>
  \<^verbatim>\<open>Unlerp\<close> of the start point of a segment with finite endpoints: \<open>0 / 0\<close> when both
  differences of the coordinates are zero, and \<open>0\<close> otherwise.
\<close>

lemma fdiv_zero:
  assumes "d \<noteq> NaN"
  shows "fdiv (Fin 0) d = (if d = Fin 0 then NaN else Fin 0)"
  using assms by (cases d) simp_all

lemma fgt_zero_fabs: "fgt (Fin 0) (fabs d) = False"
  by (cases d) (simp_all add: fgt_def)

lemma fgt_fabs_zero:
  assumes "d \<noteq> NaN"
  shows "fgt (fabs d) (Fin 0) = (d \<noteq> Fin 0)"
  using assms by (cases d) (simp_all add: fgt_def)

lemma Unlerp_start:
  assumes "px a = Fin a1" "py a = Fin a2" "px b = Fin b1" "py b = Fin b2"
  shows "Unlerp a b a =
     (if fsub (px b) (px a) = Fin 0 \<and> fsub (py b) (py a) = Fin 0 then NaN else Fin 0)"
proof -
  have n: "fsub (px b) (px a) \<noteq> NaN" "fsub (py b) (py a) \<noteq> NaN"
    using assms by (simp_all add: fsub_def)
  have z: "fsub (px a) (px a) = Fin 0" "fsub (py a) (py a) = Fin 0"
    using assms by (simp_all add: fsub_def)
  show ?thesis
    unfolding Unlerp_def z fdiv_zero[OF n(1)] fdiv_zero[OF n(2)]
    using fgt_zero_fabs[of "fsub (py b) (py a)"] fgt_fabs_zero[OF n(1)]
    by auto
qed

lemma nonzero_segment_never_returns:
  assumes "px a = Fin a1" "py a = Fin a2" "px b = Fin b1" "py b = Fin b2"
    and "fsub (px b) (px a) \<noteq> Fin 0 \<or> fsub (py b) (py a) \<noteq> Fin 0" and "can_record g a"
  shows "AddLineSegment_loop g k a b a = None"
  using assms by (intro loop_never_returns) (auto simp: Unlerp_start)

text \<open>A zero-length segment: the loop body never runs.\<close>

lemma zero_length_returns_unchanged:
  assumes "px a = Fin a1" "py a = Fin a2"
  shows "AddLineSegment_loop g k a a a = Some (Inr g)"
  using assms by (simp add: AddLineSegment_loop_eq Unlerp_start fsub_def)

lemma test_grid_zero_length:
  "AddLineSegment test_grid 9 (segment_of (point 5.5 5.5) (point 5.5 5.5)) =
     Some (Inr test_grid)"
  by (simp add: AddLineSegment_def Contains_def fge_def
      zero_length_returns_unchanged[of _ "5.5" "5.5"])

section \<open>Query\<close>

text \<open>
  Claim C3. For every query box and every state of the grid, so also every state that a
  sequence of calls of \<^verbatim>\<open>AddLineSegment\<close> has produced, \<^verbatim>\<open>Query\<close> returns the empty
  collection.
\<close>

theorem Query_returns_empty: "Query g range_box = []"
  by (simp add: Query_def)

text \<open>
  Claim C2 (the code does not do this). The claim: after \<^verbatim>\<open>AddLineSegment(k, s)\<close> a query
  with the bounding box of a cell that \<open>s\<close> passes through returns \<open>k\<close>. A call of
  \<^verbatim>\<open>AddLineSegment\<close> with a segment of non-zero length does not return. After the call with
  identifier \<open>9\<close> and the point \<open>(5.5, 5.5)\<close>, which the bounding box of cell \<open>(5, 5)\<close>
  contains, the query with that box returns nothing.
\<close>

theorem Query_misses_inserted_segment:
  "AddLineSegment test_grid 9 (segment_of (point 5.5 5.5) (point 5.5 5.5)) =
     Some (Inr test_grid) \<and>
   Contains (CellBoundingBox test_grid 5 5) (point 5.5 5.5) \<and>
   9 \<notin> set (Query test_grid (CellBoundingBox test_grid 5 5))"
proof -
  have "Contains (CellBoundingBox test_grid 5 5) (point 5.5 5.5)"
    by (simp add: Contains_def CellBoundingBox_def float_of_int_def fge_def)
  with test_grid_zero_length show ?thesis
    by (simp add: Query_def)
qed

section \<open>AddLineSegment\<close>

text \<open>
  Claim C1 (the code does not do this). The claim: for a segment with both endpoints in the
  region \<^verbatim>\<open>AddLineSegment\<close> terminates, and for a segment on a grid line within
  \<open>columnCount + rowCount\<close> steps. The segment from \<open>(2, 3)\<close> to \<open>(2, 7)\<close> lies on the grid
  line \<open>x = 2\<close> of the test grid, inside the region. The loop condition reads
  \<open>Unlerp = 0 / 4 < 1\<close>, the body records the identifier in bucket \<open>2 + 3 * 100\<close> and
  moves no point, so the call never returns.
\<close>

theorem AddLineSegment_grid_line_never_returns:
  "AddLineSegment test_grid 0 (segment_of (point 2 3) (point 2 7)) = None"
proof -
  have cell: "GridCoordinates test_grid (point 2 3) = Inr (2, 3)"
    by (simp add: GridCoordinates_def fsub_def)
  have idx: "bucket_index test_grid (2, 3) = Inr 302"
    by (simp add: bucket_index_def)
  have "can_record test_grid (point 2 3)"
    unfolding can_record_def using cell idx by blast
  then have "AddLineSegment_loop test_grid 0 (point 2 3) (point 2 7) (point 2 3) = None"
    by (intro nonzero_segment_never_returns[of _ 2 3 _ 2 7]) (simp_all add: fsub_def)
  then show ?thesis
    by (simp add: AddLineSegment_def Contains_def fge_def)
qed

text \<open>
  Claim C5 (the code does not do this). The claim: a zero-length segment inside the region
  is recorded in the bucket of the one cell that contains the point. For the segment at
  \<open>(5.5, 5.5)\<close> \<^verbatim>\<open>Unlerp\<close> divides zero by zero, the comparison of the NaN with \<open>1.0\<close> is
  false and the loop body never runs: the call returns at once and the grid, with the bucket
  \<open>5 + 5 * 100\<close> of the cell \<open>(5, 5)\<close>, is as it was, empty.
\<close>

theorem AddLineSegment_zero_length_records_nothing:
  "GridCoordinates test_grid (point 5.5 5.5) = Inr (5, 5) \<and>
   bucket_index test_grid (5, 5) = Inr 505 \<and>
   AddLineSegment test_grid 9 (segment_of (point 5.5 5.5) (point 5.5 5.5)) =
     Some (Inr test_grid) \<and>
   m_items test_grid ! 505 = []"
proof -
  have "GridCoordinates test_grid (point 5.5 5.5) = Inr (5, 5)"
    by (simp add: GridCoordinates_def fsub_def)
  moreover have "bucket_index test_grid (5, 5) = Inr 505"
    by (simp add: bucket_index_def)
  moreover have "m_items test_grid ! 505 = []"
    by (simp add: test_grid_def)
  ultimately show ?thesis
    using test_grid_zero_length by simp
qed

text \<open>
  Claim C4, as the claim states it, fails: for a segment with an endpoint outside the region
  the claim has \<^verbatim>\<open>insert\<close> return a \<^verbatim>\<open>SegmentOutOfBounds\<close> error value. The function
  returns \<^verbatim>\<open>void\<close>; for the segment from \<open>(2.5, 3.5)\<close> to \<open>(110, 3.5)\<close> on the test grid
  the assertion fails and the program stops there.
\<close>

theorem AddLineSegment_outside_aborts:
  "AddLineSegment test_grid 7 (segment_of (point 2.5 3.5) (point 110 3.5)) =
     Some (Inl AssertionFailed)"
  by (simp add: AddLineSegment_def Contains_def fge_def)

text \<open>
  Claim C4, amended. For every segment with an endpoint that the region does not contain,
  \<^verbatim>\<open>AddLineSegment\<close> fails its assertion: the program stops before the loop, so no bucket
  has been touched.
\<close>

theorem AddLineSegment_outside_assertion:
  assumes "\<not> (Contains (m_bbox g) (seg_a segment) \<and> Contains (m_bbox g) (seg_b segment))"
  shows "AddLineSegment g edgeid segment = Some (Inl AssertionFailed)"
  using assms by (simp add: AddLineSegment_def)

text \<open>Claim C4, amended, at the segment from \<open>(-1, 50)\<close> to \<open>(50, 50)\<close> on the test grid.\<close>

theorem AddLineSegment_outside_assertion_witness:
  "\<not> Contains (m_bbox test_grid) (point (- 1) 50) \<and>
   AddLineSegment test_grid 3 (segment_of (point (- 1) 50) (point 50 50)) =
     Some (Inl AssertionFailed)"
proof -
  have h: "\<not> (Contains (m_bbox test_grid) (seg_a (segment_of (point (- 1) 50) (point 50 50))) \<and>
    Contains (m_bbox test_grid) (seg_b (segment_of (point (- 1) 50) (point 50 50))))"
    by (simp add: Contains_def fge_def)
  have "\<not> Contains (m_bbox test_grid) (point (- 1) 50)"
    by (simp add: Contains_def fge_def)
  with AddLineSegment_outside_assertion[OF h, of 3] show ?thesis
    by simp
qed

section \<open>Init\<close>

lemma length_resize [simp]: "length (resize n xs) = n"
  by (simp add: resize_def)

lemma to_size_fceil:
  assumes "to_size (fceil q) = Inr n"
  shows "\<exists>w. q = Fin w \<and> n = nat \<lceil>w\<rceil> \<and> 0 \<le> \<lceil>w\<rceil> \<and> \<lceil>w\<rceil> < 2 ^ 64"
proof (cases q)
  case (Fin w)
  with assms have a: "- 1 < (of_int \<lceil>w\<rceil> :: real)" and b: "\<lceil>w\<rceil> < 2 ^ 64" and c: "n = nat \<lceil>w\<rceil>"
    by (auto split: if_splits)
  from a have "0 \<le> \<lceil>w\<rceil>"
    by linarith
  with Fin b c show ?thesis
    by blast
qed (use assms in simp_all)

lemma Init_members:
  assumes "Init old_items bbox cell_width cell_height = Inr g"
  shows "\<exists>qw qh. fdiv (Width bbox) cell_width = Fin qw \<and>
           fdiv (Height bbox) cell_height = Fin qh \<and>
           0 \<le> \<lceil>qw\<rceil> \<and> \<lceil>qw\<rceil> < 2 ^ 64 \<and> 0 \<le> \<lceil>qh\<rceil> \<and> \<lceil>qh\<rceil> < 2 ^ 64 \<and>
           m_bbox g = bbox \<and> m_cell_width g = cell_width \<and> m_cell_height g = cell_height \<and>
           m_num_rows g = nat \<lceil>qw\<rceil> \<and> m_num_cols g = nat \<lceil>qh\<rceil> \<and>
           length (m_items g) = (m_num_cols g * m_num_rows g) mod 2 ^ 64"
proof -
  from assms obtain nr nc where
    nr: "to_size (fceil (fdiv (Width bbox) cell_width)) = Inr nr"
    and nc: "to_size (fceil (fdiv (Height bbox) cell_height)) = Inr nc"
    and g: "g = \<lparr>m_bbox = bbox, m_cell_width = cell_width, m_cell_height = cell_height,
                 m_num_rows = nr, m_num_cols = nc,
                 m_items = resize ((nc * nr) mod 2 ^ 64) old_items\<rparr>"
    by (auto simp: Init_def split: sum.splits)
  from to_size_fceil[OF nr] to_size_fceil[OF nc] g show ?thesis
    by auto
qed

text \<open>
  The index \<open>column + row * num_rows_\<close> numbers the cells row by row, \<^verbatim>\<open>num_rows_\<close> cells
  to a row, when the product of the two counts has not wrapped around.
\<close>

lemma index_in_range:
  fixes i j nr nc :: nat
  assumes "i < nr" "j < nc"
  shows "i + j * nr < nc * nr"
proof -
  have "(j + 1) * nr \<le> nc * nr"
    using assms by (intro mult_le_mono1) simp
  with assms show ?thesis by simp
qed

lemma bucket_index_row_major:
  assumes len: "length (m_items g) = m_num_cols g * m_num_rows g"
    and small: "m_num_cols g * m_num_rows g < 2 ^ 64"
    and cell: "column < m_num_rows g" "row < m_num_cols g"
  shows "bucket_index g (int column, int row) = Inr (column + row * m_num_rows g) \<and>
         column + row * m_num_rows g < length (m_items g)"
proof -
  have lt: "column + row * m_num_rows g < m_num_cols g * m_num_rows g"
    using cell by (rule index_in_range)
  have "int column + int row * int (m_num_rows g) = int (column + row * m_num_rows g)"
    by simp
  moreover have "int (column + row * m_num_rows g) mod 2 ^ 64 = int (column + row * m_num_rows g)"
  proof -
    from lt small have "column + row * m_num_rows g < 2 ^ 64"
      by linarith
    then have "int (column + row * m_num_rows g) < int (2 ^ 64)"
      by (simp only: of_nat_less_iff)
    also have "int (2 ^ 64) = 2 ^ 64"
      by simp
    finally show ?thesis
      by (intro mod_pos_pos_trivial) simp_all
  qed
  ultimately have "(int column + int row * int (m_num_rows g)) mod 2 ^ 64 =
      int (column + row * m_num_rows g)"
    by simp
  with lt len show ?thesis
    by (simp add: bucket_index_def del: of_nat_add of_nat_mult)
qed

lemma bucket_index_cell_of:
  assumes len: "length (m_items g) = m_num_cols g * m_num_rows g"
    and small: "m_num_cols g * m_num_rows g < 2 ^ 64"
    and idx: "idx < length (m_items g)"
  shows "idx mod m_num_rows g < m_num_rows g \<and> idx div m_num_rows g < m_num_cols g \<and>
         bucket_index g (int (idx mod m_num_rows g), int (idx div m_num_rows g)) = Inr idx"
proof -
  from idx len have pos: "0 < m_num_rows g"
    by (cases "m_num_rows g") simp_all
  then have c: "idx mod m_num_rows g < m_num_rows g"
    by simp
  from idx len have r: "idx div m_num_rows g < m_num_cols g"
    by (simp add: less_mult_imp_div_less)
  from bucket_index_row_major[OF len small c r] c r show ?thesis
    by simp
qed

text \<open>
  Claim C7, as the claim states it, fails. The bucket collection does not always hold
  \<open>columnCount * rowCount\<close> cells: for the region \<open>[0, 2 ^ 32] \<times> [0, 2 ^ 32]\<close> and cells
  of width and height \<open>1\<close> both counts are \<open>2 ^ 32\<close>; their product in \<^verbatim>\<open>size_t\<close> is
  \<open>0\<close>, and \<^verbatim>\<open>items_.resize(0)\<close> leaves the grid without a bucket, also for the cell
  \<open>(0, 0)\<close>. The counts are the ceilings of the quotients that \<^verbatim>\<open>float\<close> division
  gives: for the region \<open>[0, 7] \<times> [0, 7]\<close> and cells of width and height \<open>0.7\<close> the
  quotient \<open>10.00000017...\<close> is rounded to \<open>10\<close>, and the grid has 10 columns, where the
  ceiling of \<open>region.width / cellWidth\<close> is 11. And a construction with strictly positive
  cell dimensions need not complete: for the region of the test grid and the cell width
  \<open>2 ^ -126\<close> the quotient is infinite, and its conversion to \<^verbatim>\<open>size_t\<close> has undefined
  behaviour.
\<close>

theorem Init_bucket_count_wraps:
  "GridRangeQuery_cells huge_bbox (Fin 1) (Fin 1) = Inr huge_grid \<and>
   m_num_rows huge_grid = 4294967296 \<and> m_num_cols huge_grid = 4294967296 \<and>
   m_items huge_grid = [] \<and>
   bucket_index huge_grid (0, 0) = Inl UndefinedBehaviour \<and>
   GridRangeQuery_cells seven_bbox (round32 0.7) (round32 0.7) = Inr seven_grid \<and>
   m_cell_width seven_grid = Fin (11744051 / 16777216) \<and>
   m_num_rows seven_grid = 10 \<and>
   \<lceil>(7 - 0) / (11744051 / 16777216 :: real)\<rceil> = 11 \<and>
   GridRangeQuery_cells test_bbox (Fin (1 / 2 ^ 126)) (Fin 1) = Inl UndefinedBehaviour"
proof -
  have r: "round32 4294967296 = Fin 4294967296"
    using round32_exact[of 4294967296 1 32] by simp
  have "GridRangeQuery_cells huge_bbox (Fin 1) (Fin 1) = Inr huge_grid"
    by (simp add: GridRangeQuery_cells_def Init_def Width_def Height_def fsub_def
        huge_bbox_def huge_grid_def r resize_def)
  then have huge: "GridRangeQuery_cells huge_bbox (Fin 1) (Fin 1) = Inr huge_grid \<and>
      m_num_rows huge_grid = 4294967296 \<and> m_num_cols huge_grid = 4294967296 \<and>
      m_items huge_grid = [] \<and> bucket_index huge_grid (0, 0) = Inl UndefinedBehaviour"
    by (simp add: huge_grid_def bucket_index_def)
  have ten: "round32 (117440512 / 11744051) = Fin 10"
  proof -
    have "expo (117440512 / 11744051) = 3"
      by (rule expo_eq) simp_all
    then show ?thesis
      by (simp add: round32_def round_even_def)
  qed
  have seven: "GridRangeQuery_cells seven_bbox (round32 0.7) (round32 0.7) = Inr seven_grid"
    by (simp add: GridRangeQuery_cells_def Init_def Width_def Height_def fsub_def
        seven_bbox_def seven_grid_def round32_seven_tenths ten resize_def)
  have members: "m_cell_width seven_grid = Fin (11744051 / 16777216)" "m_num_rows seven_grid = 10"
    by (simp_all add: seven_grid_def)
  have exact: "\<lceil>(7 - 0) / (11744051 / 16777216 :: real)\<rceil> = 11"
    by (simp add: ceiling_eq_iff)
  have inf: "round32 (100 * 2 ^ 126) = PosInf"
  proof -
    have "expo (100 * 2 ^ 126) = 127"
      by (rule expo_top) simp
    then show ?thesis
      by (simp add: round32_def round_even_def)
  qed
  have "GridRangeQuery_cells test_bbox (Fin (1 / 2 ^ 126)) (Fin 1) = Inl UndefinedBehaviour"
    using inf by (simp add: GridRangeQuery_cells_def Init_def Width_def fsub_def)
  with huge seven members exact show ?thesis
    by simp
qed

text \<open>
  Claim C7, amended. After a construction from a region and cell dimensions that completes,
  the member \<^verbatim>\<open>num_rows_\<close> holds the number of columns, the ceiling of the quotient of the
  width and the cell width as \<^verbatim>\<open>float\<close> division gives it, and \<^verbatim>\<open>num_cols_\<close> holds
  the number of rows, the ceiling of the quotient of the height and the cell height; the
  number of buckets is the product of the two counts modulo \<open>2 ^ 64\<close>. When the product is
  less than \<open>2 ^ 64\<close>, the index \<open>column + row * num_rows_\<close> is a one-to-one
  correspondence, row by row, between the cells and the buckets: every cell has its bucket,
  and every bucket is the bucket of the cell \<open>(idx mod num_rows_, idx div num_rows_)\<close>.
\<close>

theorem Init_counts_and_layout:
  assumes "GridRangeQuery_cells bbox cell_width cell_height = Inr g"
  shows "\<exists>qw qh. fdiv (Width bbox) cell_width = Fin qw \<and>
           fdiv (Height bbox) cell_height = Fin qh \<and>
           int (m_num_rows g) = \<lceil>qw\<rceil> \<and> int (m_num_cols g) = \<lceil>qh\<rceil> \<and>
           length (m_items g) = (m_num_cols g * m_num_rows g) mod 2 ^ 64 \<and>
           (m_num_cols g * m_num_rows g < 2 ^ 64 \<longrightarrow>
              (\<forall>column row. column < m_num_rows g \<and> row < m_num_cols g \<longrightarrow>
                 bucket_index g (int column, int row) = Inr (column + row * m_num_rows g) \<and>
                 column + row * m_num_rows g < length (m_items g)) \<and>
              (\<forall>idx. idx < length (m_items g) \<longrightarrow>
                 idx mod m_num_rows g < m_num_rows g \<and> idx div m_num_rows g < m_num_cols g \<and>
                 bucket_index g (int (idx mod m_num_rows g), int (idx div m_num_rows g)) =
                   Inr idx))"
proof -
  from assms obtain qw qh where
    qq: "fdiv (Width bbox) cell_width = Fin qw" "fdiv (Height bbox) cell_height = Fin qh"
    and n: "m_num_rows g = nat \<lceil>qw\<rceil>" "0 \<le> \<lceil>qw\<rceil>"
      "m_num_cols g = nat \<lceil>qh\<rceil>" "0 \<le> \<lceil>qh\<rceil>"
    and len: "length (m_items g) = (m_num_cols g * m_num_rows g) mod 2 ^ 64"
    unfolding GridRangeQuery_cells_def using Init_members by blast
  from n have "int (m_num_rows g) = \<lceil>qw\<rceil>" "int (m_num_cols g) = \<lceil>qh\<rceil>"
    by simp_all
  note q = qq this
  have "(\<forall>column row. column < m_num_rows g \<and> row < m_num_cols g \<longrightarrow>
           bucket_index g (int column, int row) = Inr (column + row * m_num_rows g) \<and>
           column + row * m_num_rows g < length (m_items g)) \<and>
        (\<forall>idx. idx < length (m_items g) \<longrightarrow>
           idx mod m_num_rows g < m_num_rows g \<and> idx div m_num_rows g < m_num_cols g \<and>
           bucket_index g (int (idx mod m_num_rows g), int (idx div m_num_rows g)) = Inr idx)"
    if small: "m_num_cols g * m_num_rows g < 2 ^ 64"
  proof -
    from len small have l: "length (m_items g) = m_num_cols g * m_num_rows g"
      by simp
    show ?thesis
      using bucket_index_row_major[OF l small] bucket_index_cell_of[OF l small] by blast
  qed
  with q len show ?thesis
    by blast
qed

text \<open>
  Claim C7, amended, at the region \<open>[0, 100] \<times> [0, 50]\<close> with cells of width and height
  \<open>25\<close>: 4 columns, 2 rows and 8 buckets; the cell \<open>(3, 1)\<close> has the bucket \<open>7\<close>, and the
  bucket \<open>4\<close> belongs to the cell \<open>(0, 1)\<close>.
\<close>

theorem Init_counts_and_layout_witness:
  "GridRangeQuery_cells wide_bbox (Fin 25) (Fin 25) = Inr wide_grid \<and>
   fdiv (Width wide_bbox) (Fin 25) = Fin 4 \<and> fdiv (Height wide_bbox) (Fin 25) = Fin 2 \<and>
   m_num_rows wide_grid = 4 \<and> m_num_cols wide_grid = 2 \<and> length (m_items wide_grid) = 8 \<and>
   bucket_index wide_grid (int 3, int 1) = Inr 7 \<and>
   bucket_index wide_grid (int (4 mod 4), int (4 div 4)) = Inr 4"
proof -
  have c: "GridRangeQuery_cells wide_bbox (Fin 25) (Fin 25) = Inr wide_grid"
    by (simp add: GridRangeQuery_cells_def Init_def Width_def Height_def fsub_def
        wide_bbox_def wide_grid_def resize_def)
  have w: "fdiv (Width wide_bbox) (Fin 25) = Fin 4" "fdiv (Height wide_bbox) (Fin 25) = Fin 2"
    by (simp_all add: Width_def Height_def fsub_def wide_bbox_def)
  have m: "m_num_rows wide_grid = 4" "m_num_cols wide_grid = 2" "length (m_items wide_grid) = 8"
    by (simp_all add: wide_grid_def)
  have small: "m_num_cols wide_grid * m_num_rows wide_grid < 2 ^ 64"
    by (simp add: m)
  from Init_counts_and_layout[OF c] obtain qw qh where
    "m_num_cols wide_grid * m_num_rows wide_grid < 2 ^ 64 \<longrightarrow>
       (\<forall>column row. column < m_num_rows wide_grid \<and> row < m_num_cols wide_grid \<longrightarrow>
          bucket_index wide_grid (int column, int row) =
            Inr (column + row * m_num_rows wide_grid) \<and>
          column + row * m_num_rows wide_grid < length (m_items wide_grid)) \<and>
       (\<forall>idx. idx < length (m_items wide_grid) \<longrightarrow>
          idx mod m_num_rows wide_grid < m_num_rows wide_grid \<and>
          idx div m_num_rows wide_grid < m_num_cols wide_grid \<and>
          bucket_index wide_grid (int (idx mod m_num_rows wide_grid),
            int (idx div m_num_rows wide_grid)) = Inr idx)"
    by (elim exE conjE)
  with small have
    A: "\<And>column row. column < m_num_rows wide_grid \<and> row < m_num_cols wide_grid \<Longrightarrow>
          bucket_index wide_grid (int column, int row) =
            Inr (column + row * m_num_rows wide_grid)"
    and B: "\<And>idx. idx < length (m_items wide_grid) \<Longrightarrow>
          bucket_index wide_grid (int (idx mod m_num_rows wide_grid),
            int (idx div m_num_rows wide_grid)) = Inr idx"
    by blast+
  have "bucket_index wide_grid (int 3, int 1) = Inr 7"
    using A[of 3 1] by (simp add: m)
  moreover have "bucket_index wide_grid (int (4 mod 4), int (4 div 4)) = Inr 4"
    using B[of 4] by (simp add: m)
  ultimately show ?thesis
    using c w m by simp
qed

section \<open>GridCoordinates and CellBoundingBox\<close>





text \<open>
  The grid of the world and the point \<open>(179.99998, 89.5)\<close>, whose first coordinate is the
  \<^verbatim>\<open>float\<close> \<open>11796479 / 65536\<close>, the greatest one below \<open>180\<close>. The difference to the lower
  bound \<open>-180\<close> is \<open>360 - 2 ^ -16\<close>, halfway between the neighbouring floats
  \<open>360 - 2 ^ -15\<close> and \<open>360\<close>; the tie goes to \<open>360\<close>, whose significand is even.
\<close>

lemma world_grid_constructed: "GridRangeQuery_counts world_bbox 360 180 = Inr world_grid"
  by (simp add: GridRangeQuery_counts_def Init_def Width_def Height_def fsub_def
      world_bbox_def world_grid_def float_of_int_def resize_def)

lemma world_grid_simps [simp]:
  "m_bbox world_grid = world_bbox" "m_cell_width world_grid = Fin 1"
  "m_cell_height world_grid = Fin 1" "m_num_rows world_grid = 360"
  "m_num_cols world_grid = 180" "length (m_items world_grid) = 64800"
  by (simp_all add: world_grid_def)

lemma world_bbox_simps [simp]:
  "minx world_bbox = Fin (- 180)" "miny world_bbox = Fin (- 90)"
  "maxx world_bbox = Fin 180" "maxy world_bbox = Fin 90"
  by (simp_all add: world_bbox_def)

lemma near_date_line: "point32 179.99998 89.5 = point (11796479 / 65536) (179 / 2)"
  by (simp add: point32_def point_def round32_179_99998)

lemma round32_to_360: "round32 (23592959 / 65536) = Fin 360"
proof -
  have "expo (23592959 / 65536) = 8"
    by (rule expo_eq) simp_all
  then show ?thesis
    by (simp add: round32_def round_even_def)
qed

lemma world_grid_cell: "GridCoordinates world_grid (point (11796479 / 65536) (179 / 2)) = Inr (360, 179)"
  by (simp add: GridCoordinates_def fsub_def round32_to_360)




text \<open>
  Claim C8 (the code does not do this). The claim: for every point \<open>p\<close> inside the region the
  bounding box of the cell \<^verbatim>\<open>GridCoordinates(p)\<close> contains \<open>p\<close>. On the unit square in 10 by
  10 cells the cell width is the \<^verbatim>\<open>float\<close> \<open>0.1\<close>, that is \<open>13421773 / 2 ^ 27\<close>, and the
  first coordinate of the point \<open>(0.9, 0.05)\<close> is the \<^verbatim>\<open>float\<close> \<open>0.9\<close>, that is
  \<open>15099494 / 2 ^ 24\<close>. The quotient \<open>8.9999996...\<close> is rounded to \<open>9\<close>, so the point gets
  the cell \<open>(9, 0)\<close>; the product \<open>9 * 0.1\<close> is rounded to \<open>15099495 / 2 ^ 24\<close>, so the
  bounding box of that cell begins to the right of the point.
\<close>

theorem cell_of_point_misses_point:
  "GridRangeQuery_counts unit_bbox 10 10 = Inr tenth_grid \<and>
   Contains (m_bbox tenth_grid) (point32 0.9 0.05) \<and>
   px (point32 0.9 0.05) = Fin (15099494 / 16777216) \<and>
   GridCoordinates tenth_grid (point32 0.9 0.05) = Inr (9, 0) \<and>
   minx (CellBoundingBox tenth_grid 9 0) = Fin (15099495 / 16777216) \<and>
   \<not> Contains (CellBoundingBox tenth_grid 9 0) (point32 0.9 0.05)"
proof -
  have ten: "round32 (134217728 / 13421773) = Fin 10"
  proof -
    have "expo (134217728 / 13421773) = 3"
      by (rule expo_eq) simp_all
    then show ?thesis
      by (simp add: round32_def round_even_def)
  qed
  have c: "GridRangeQuery_counts unit_bbox 10 10 = Inr tenth_grid"
    by (simp add: GridRangeQuery_counts_def Init_def Width_def Height_def fsub_def
        unit_bbox_def tenth_grid_def float_of_int_def resize_def round32_one_tenth ten)
  have p: "point32 0.9 0.05 = point (15099494 / 16777216) (13421773 / 268435456)"
    by (simp add: point32_def point_def round32_nine_tenths round32_one_twentieth)
  have x: "round32 (7549747 / 8388608) = Fin (7549747 / 8388608)"
    using round32_dyadic[of 7549747 23] by simp
  have y: "round32 (13421773 / 268435456) = Fin (13421773 / 268435456)"
    using round32_dyadic[of 13421773 28] by simp
  have nine: "round32 (120795952 / 13421773) = Fin 9"
  proof -
    have "expo (120795952 / 13421773) = 3"
      by (rule expo_eq) simp_all
    then show ?thesis
      by (simp add: round32_def round_even_def)
  qed
  have gc: "GridCoordinates tenth_grid (point (15099494 / 16777216) (13421773 / 268435456)) =
      Inr (9, 0)"
    by (simp add: GridCoordinates_def tenth_grid_def unit_bbox_def fsub_def x y nine)
  have prod: "round32 (9 * (13421773 / 134217728)) = Fin (15099495 / 16777216)"
  proof -
    have "expo (120795957 / 134217728) = - 1"
      by (rule expo_eq) simp_all
    then show ?thesis
      by (simp add: round32_def round_even_def)
  qed
  have x': "round32 (15099495 / 16777216) = Fin (15099495 / 16777216)"
    using round32_dyadic[of 15099495 24] by simp
  have lo: "minx (CellBoundingBox tenth_grid 9 0) = Fin (15099495 / 16777216)"
    using prod x'
    by (simp add: CellBoundingBox_def tenth_grid_def unit_bbox_def float_of_int_def)
  have "\<not> Contains (CellBoundingBox tenth_grid 9 0)
      (point (15099494 / 16777216) (13421773 / 268435456))"
    by (simp add: Contains_def fge_def lo)
  moreover have "Contains (m_bbox tenth_grid)
      (point (15099494 / 16777216) (13421773 / 268435456))"
    by (simp add: Contains_def fge_def tenth_grid_def unit_bbox_def)
  ultimately show ?thesis
    using c gc lo unfolding p by simp
qed

section \<open>The bucket index\<close>

text \<open>
  Claim C10 (the code does not do this). The claim: for a segment with both endpoints
  strictly inside the region every access \<^verbatim>\<open>items_[column + row * num_rows_]\<close> is within
  the vector. On the grid of the world, with 360 columns, 180 rows and 64800 buckets, the
  points \<open>(179.99998, 89.5)\<close> and \<open>(179.99998, 87.5)\<close> lie strictly inside the region. The
  loop condition holds at the first point, which gets the cell \<open>(360, 179)\<close>, and the first
  pass of the loop accesses \<^verbatim>\<open>items_[360 + 179 * 360]\<close>, the position \<open>64800\<close>, one past
  the end of the vector.
\<close>

theorem AddLineSegment_index_out_of_bounds:
  "GridRangeQuery_counts world_bbox 360 180 = Inr world_grid \<and>
   strictly_inside (m_bbox world_grid) (point32 179.99998 89.5) \<and>
   strictly_inside (m_bbox world_grid) (point32 179.99998 87.5) \<and>
   GridCoordinates world_grid (point32 179.99998 89.5) = Inr (360, 179) \<and>
   length (m_items world_grid) = 64800 \<and>
   bucket_index world_grid (360, 179) = Inl UndefinedBehaviour \<and>
   AddLineSegment world_grid 0
     (segment_of (point32 179.99998 89.5) (point32 179.99998 87.5)) =
     Some (Inl UndefinedBehaviour)"
proof -
  let ?a = "point (11796479 / 65536) (179 / 2)"
  let ?b = "point (11796479 / 65536) (175 / 2)"
  have b: "point32 179.99998 87.5 = ?b"
    using round32_dyadic[of 175 1] by (simp add: point32_def point_def round32_179_99998)
  have ins: "strictly_inside (m_bbox world_grid) ?a" "strictly_inside (m_bbox world_grid) ?b"
    by (simp_all add: strictly_inside_def)
  have con: "Contains (m_bbox world_grid) ?a" "Contains (m_bbox world_grid) ?b"
    by (simp_all add: Contains_def fge_def)
  have idx: "bucket_index world_grid (360, 179) = Inl UndefinedBehaviour"
    by (simp add: bucket_index_def)
  have "fsub (py ?b) (py ?a) = Fin (- 2)"
    by (simp add: fsub_def)
  then have "Unlerp ?a ?b ?a = Fin 0"
    by (simp add: Unlerp_start[of _ "11796479 / 65536" "179 / 2" _ "11796479 / 65536" "175 / 2"])
  then have "AddLineSegment_loop world_grid 0 ?a ?b ?a = Some (Inl UndefinedBehaviour)"
    by (simp add: AddLineSegment_loop_eq world_grid_cell idx)
  with con have "AddLineSegment world_grid 0 (segment_of ?a ?b) = Some (Inl UndefinedBehaviour)"
    by (simp add: AddLineSegment_def)
  with ins idx world_grid_constructed world_grid_cell show ?thesis
    unfolding near_date_line b by simp
qed

section \<open>CellLineSegmentIntersections\<close>

lemma push_if_eq: "push_if xs r = xs @ (case r of None \<Rightarrow> [] | Some p \<Rightarrow> [p])"
  by (cases r) simp_all

text \<open>The four tests of the source, one edge after the other, as one pass over the edges.\<close>

lemma CellLineSegmentIntersections_edges:
  "CellLineSegmentIntersections g i j segment =
     List.map_filter (Intersect segment) (cell_edges (CellBoundingBox g i j))"
  by (simp add: CellLineSegmentIntersections_def cell_edges_def Let_def push_if_eq
      List.map_filter_def segment_of_def split: option.splits)

lemma finite_point_point [simp]: "finite_point (point u v) = Some (u, v)"
  by (simp add: finite_point_def point_def)

lemma finite_point_Fin [simp]: "finite_point \<lparr>px = Fin u, py = Fin v\<rparr> = Some (u, v)"
  by (simp add: finite_point_def)

text \<open>
  The last assertions of \<^verbatim>\<open>TestGridTools\<close>: one intersection, at \<open>(3, 3.5)\<close>. The model of
  \<^verbatim>\<open>Intersect\<close> agrees with the one test of it that the source has.
\<close>

lemma TestGridTools_intersections:
  "CellLineSegmentIntersections test_grid 2 3 (segment_of (point 2.5 3.5) (point 10 3.5)) =
     [point 3 3.5]"
  by (simp add: CellLineSegmentIntersections_def CellBoundingBox_def float_of_int_def
      Intersect_def Let_def point_def segment_of_def)

text \<open>
  A successful intersection test on finite segments: the point is \<open>a + t (b - a)\<close>, it also
  is \<open>c + u (d - c)\<close>, both parameters lie in \<open>[0, 1]\<close> and the segments are not parallel.
\<close>

lemma Intersect_Some:
  assumes "Intersect (segment_of (point a1 a2) (point b1 b2))
             (segment_of (point c1 c2) (point d1 d2)) = Some p"
  shows "\<exists>t u. 0 \<le> t \<and> t \<le> 1 \<and> 0 \<le> u \<and> u \<le> 1 \<and>
           (d1 - c1) * (b2 - a2) - (d2 - c2) * (b1 - a1) \<noteq> 0 \<and>
           p = point (a1 + (b1 - a1) * t) (a2 + (b2 - a2) * t) \<and>
           a1 + (b1 - a1) * t = c1 + (d1 - c1) * u \<and>
           a2 + (b2 - a2) * t = c2 + (d2 - c2) * u"
proof -
  define denom where "denom = (d1 - c1) * (b2 - a2) - (d2 - c2) * (b1 - a1)"
  define t where "t = ((d1 - c1) * (c2 - a2) - (d2 - c2) * (c1 - a1)) / denom"
  define u where "u = ((b1 - a1) * (c2 - a2) - (b2 - a2) * (c1 - a1)) / denom"
  from assms have nz: "denom \<noteq> 0"
    by (auto simp: Intersect_def Let_def denom_def split: if_splits)
  with assms have rest: "0 \<le> t \<and> t \<le> 1 \<and> 0 \<le> u \<and> u \<le> 1 \<and>
      p = point (a1 + (b1 - a1) * t) (a2 + (b2 - a2) * t)"
    by (auto simp: Intersect_def Let_def denom_def t_def u_def point_def split: if_splits)
  have e1: "a1 + (b1 - a1) * t = c1 + (d1 - c1) * u"
    using nz unfolding t_def u_def denom_def by (simp add: field_simps)
  have e2: "a2 + (b2 - a2) * t = c2 + (d2 - c2) * u"
    using nz unfolding t_def u_def denom_def by (simp add: field_simps)
  from nz rest e1 e2 show ?thesis unfolding denom_def by blast
qed

text \<open>An edge with an endpoint that is not finite has no intersection point.\<close>

lemma Intersect_not_finite:
  assumes "finite_point (seg_a e) = None \<or> finite_point (seg_b e) = None"
  shows "Intersect s e = None"
  using assms by (auto simp: Intersect_def split: option.splits)

lemma finite_point_None:
  assumes "\<forall>u. px p \<noteq> Fin u"
  shows "finite_point p = None"
  using assms by (cases "px p") (simp_all add: finite_point_def split: float.splits)

lemma finite_point_None_y:
  assumes "\<forall>v. py p \<noteq> Fin v"
  shows "finite_point p = None"
  using assms by (cases "px p"; cases "py p") (simp_all add: finite_point_def)

lemma convex_between:
  fixes u :: real
  assumes "0 \<le> u" "u \<le> 1"
  shows "min X0 X1 \<le> X0 + (X1 - X0) * u \<and> X0 + (X1 - X0) * u \<le> max X0 X1"
proof (cases "X0 \<le> X1")
  case True
  then have "0 \<le> (X1 - X0) * u" using assms by simp
  moreover have "(X1 - X0) * u \<le> (X1 - X0) * 1"
    using assms True by (intro mult_left_mono) simp_all
  ultimately show ?thesis using True by (simp add: algebra_simps)
next
  case False
  then have "0 \<le> (X0 - X1) * u" using assms by simp
  moreover have "(X0 - X1) * u \<le> (X0 - X1) * 1"
    using assms False by (intro mult_left_mono) simp_all
  ultimately show ?thesis using False by (simp add: algebra_simps)
qed

text \<open>
  Every intersection with an edge of a finite cell is a boundary hit of the rectangle that
  the four corners of the cell span.
\<close>

lemma edge_hit:
  assumes e: "e \<in> set (cell_edges \<lparr>minx = Fin X0, miny = Fin Y0, maxx = Fin X1, maxy = Fin Y1\<rparr>)"
    and I: "Intersect (segment_of (point a1 a2) (point b1 b2)) e = Some p"
  shows "\<exists>t. p = point (a1 + (b1 - a1) * t) (a2 + (b2 - a2) * t) \<and>
             boundary_hit (min X0 X1) (min Y0 Y1) (max X0 X1) (max Y0 Y1)
               a1 a2 (b1 - a1) (b2 - a2) t"
proof -
  from e consider
      "e = segment_of (point X0 Y0) (point X1 Y0)" | "e = segment_of (point X1 Y0) (point X1 Y1)"
    | "e = segment_of (point X1 Y1) (point X0 Y1)" | "e = segment_of (point X0 Y1) (point X0 Y0)"
    by (auto simp: cell_edges_def point_def)
  then show ?thesis
  proof cases
    case 1
    from Intersect_Some[OF I[unfolded 1]] obtain t u where
      h: "0 \<le> u" "u \<le> 1" "(X1 - X0) * (b2 - a2) - (Y0 - Y0) * (b1 - a1) \<noteq> 0"
        "p = point (a1 + (b1 - a1) * t) (a2 + (b2 - a2) * t)"
        "a1 + (b1 - a1) * t = X0 + (X1 - X0) * u" "a2 + (b2 - a2) * t = Y0 + (Y0 - Y0) * u"
      by blast
    with convex_between[OF h(1,2), of X0 X1] have
      "boundary_hit (min X0 X1) (min Y0 Y1) (max X0 X1) (max Y0 Y1) a1 a2 (b1 - a1) (b2 - a2) t"
      by (auto simp: boundary_hit_def)
    with h(4) show ?thesis by blast
  next
    case 2
    from Intersect_Some[OF I[unfolded 2]] obtain t u where
      h: "0 \<le> u" "u \<le> 1" "(X1 - X1) * (b2 - a2) - (Y1 - Y0) * (b1 - a1) \<noteq> 0"
        "p = point (a1 + (b1 - a1) * t) (a2 + (b2 - a2) * t)"
        "a1 + (b1 - a1) * t = X1 + (X1 - X1) * u" "a2 + (b2 - a2) * t = Y0 + (Y1 - Y0) * u"
      by blast
    with convex_between[OF h(1,2), of Y0 Y1] have
      "boundary_hit (min X0 X1) (min Y0 Y1) (max X0 X1) (max Y0 Y1) a1 a2 (b1 - a1) (b2 - a2) t"
      by (auto simp: boundary_hit_def)
    with h(4) show ?thesis by blast
  next
    case 3
    from Intersect_Some[OF I[unfolded 3]] obtain t u where
      h: "0 \<le> u" "u \<le> 1" "(X0 - X1) * (b2 - a2) - (Y1 - Y1) * (b1 - a1) \<noteq> 0"
        "p = point (a1 + (b1 - a1) * t) (a2 + (b2 - a2) * t)"
        "a1 + (b1 - a1) * t = X1 + (X0 - X1) * u" "a2 + (b2 - a2) * t = Y1 + (Y1 - Y1) * u"
      by blast
    with convex_between[OF h(1,2), of X1 X0] have
      "boundary_hit (min X0 X1) (min Y0 Y1) (max X0 X1) (max Y0 Y1) a1 a2 (b1 - a1) (b2 - a2) t"
      by (auto simp: boundary_hit_def)
    with h(4) show ?thesis by blast
  next
    case 4
    from Intersect_Some[OF I[unfolded 4]] obtain t u where
      h: "0 \<le> u" "u \<le> 1" "(X0 - X0) * (b2 - a2) - (Y0 - Y1) * (b1 - a1) \<noteq> 0"
        "p = point (a1 + (b1 - a1) * t) (a2 + (b2 - a2) * t)"
        "a1 + (b1 - a1) * t = X0 + (X0 - X0) * u" "a2 + (b2 - a2) * t = Y1 + (Y0 - Y1) * u"
      by blast
    with convex_between[OF h(1,2), of Y1 Y0] have
      "boundary_hit (min X0 X1) (min Y0 Y1) (max X0 X1) (max Y0 Y1) a1 a2 (b1 - a1) (b2 - a2) t"
      by (auto simp: boundary_hit_def)
    with h(4) show ?thesis by blast
  qed
qed

text \<open>
  Of three boundary hits in the order of their parameters the middle one lies on a side of
  the rectangle that the line crosses, so one of the other two lies beyond that side.
\<close>

lemma slope_zero_lower:
  fixes s :: real
  assumes "t1 < t2" "t2 < t3" "c \<le> a + s * t1" "c \<le> a + s * t3" "a + s * t2 = c"
  shows "s = 0"
proof -
  from assms have "s * t2 \<le> s * t1" "s * t2 \<le> s * t3" by simp_all
  with assms(1,2) show ?thesis
    by (auto simp: mult_le_cancel_left not_less)
qed

lemma slope_zero_upper:
  fixes s :: real
  assumes "t1 < t2" "t2 < t3" "a + s * t1 \<le> c" "a + s * t3 \<le> c" "a + s * t2 = c"
  shows "s = 0"
proof -
  from assms have "s * t1 \<le> s * t2" "s * t3 \<le> s * t2" by simp_all
  with assms(1,2) show ?thesis
    by (auto simp: mult_le_cancel_left not_less)
qed

lemma no_three_hits:
  assumes "boundary_hit X0 Y0 X1 Y1 a1 a2 s1 s2 t1"
    and "boundary_hit X0 Y0 X1 Y1 a1 a2 s1 s2 t2"
    and "boundary_hit X0 Y0 X1 Y1 a1 a2 s1 s2 t3"
    and "t1 < t2" "t2 < t3"
  shows False
proof -
  from assms(2) consider
      "a2 + s2 * t2 = Y0" "s2 \<noteq> 0" | "a2 + s2 * t2 = Y1" "s2 \<noteq> 0"
    | "a1 + s1 * t2 = X0" "s1 \<noteq> 0" | "a1 + s1 * t2 = X1" "s1 \<noteq> 0"
    by (auto simp: boundary_hit_def)
  then show False
  proof cases
    case 1
    with assms show False
      using slope_zero_lower[of t1 t2 t3 Y0 a2 s2] by (simp add: boundary_hit_def)
  next
    case 2
    with assms show False
      using slope_zero_upper[of t1 t2 t3 a2 s2 Y1] by (simp add: boundary_hit_def)
  next
    case 3
    with assms show False
      using slope_zero_lower[of t1 t2 t3 X0 a1 s1] by (simp add: boundary_hit_def)
  next
    case 4
    with assms show False
      using slope_zero_upper[of t1 t2 t3 a1 s1 X1] by (simp add: boundary_hit_def)
  qed
qed

lemma hits_at_most_two_parameters:
  assumes p: "boundary_hit X0 Y0 X1 Y1 a1 a2 s1 s2 tp"
    and q: "boundary_hit X0 Y0 X1 Y1 a1 a2 s1 s2 tq"
    and r: "boundary_hit X0 Y0 X1 Y1 a1 a2 s1 s2 tr"
  shows "tp = tq \<or> tq = tr \<or> tp = tr"
proof (rule ccontr)
  assume "\<not> (tp = tq \<or> tq = tr \<or> tp = tr)"
  then consider "tp < tq" "tq < tr" | "tp < tr" "tr < tq" | "tq < tp" "tp < tr"
    | "tq < tr" "tr < tp" | "tr < tp" "tp < tq" | "tr < tq" "tq < tp"
    by linarith
  then show False
    using no_three_hits p q r by cases blast+
qed

lemma at_most_two:
  assumes "finite S"
    and three: "\<And>p q r. p \<in> S \<Longrightarrow> q \<in> S \<Longrightarrow> r \<in> S \<Longrightarrow> p = q \<or> q = r \<or> p = r"
  shows "card S \<le> 2"
proof (cases "\<exists>p q. p \<in> S \<and> q \<in> S \<and> p \<noteq> q")
  case True
  then obtain p q where pq: "p \<in> S" "q \<in> S" "p \<noteq> q" by blast
  have "S \<subseteq> {p, q}"
    using three[OF pq(1) pq(2)] pq by blast
  then have "card S \<le> card {p, q}"
    by (intro card_mono) simp_all
  also have "\<dots> \<le> 2" using pq by simp
  finally show ?thesis .
next
  case False
  then have "S = {} \<or> (\<exists>p. S = {p})" by blast
  then show ?thesis by auto
qed

text \<open>
  A cell with a bound that is not finite (a product or a sum of \<^verbatim>\<open>CellBoundingBox\<close> has
  overflowed): each bound belongs to three of the four edges, so at most one edge has an
  intersection point.
\<close>

lemma not_finite_cell_at_most_one:
  assumes "\<not> (\<exists>X0 Y0 X1 Y1. CellBoundingBox g i j =
             \<lparr>minx = Fin X0, miny = Fin Y0, maxx = Fin X1, maxy = Fin Y1\<rparr>)"
  shows "length (CellLineSegmentIntersections g i j segment) \<le> 1"
proof -
  define cell where "cell = CellBoundingBox g i j"
  have cases: "(\<forall>u. minx cell \<noteq> Fin u) \<or> (\<forall>u. miny cell \<noteq> Fin u) \<or>
      (\<forall>u. maxx cell \<noteq> Fin u) \<or> (\<forall>u. maxy cell \<noteq> Fin u)"
  proof (rule ccontr)
    assume "\<not> ?thesis"
    then obtain X0 Y0 X1 Y1 where
      "minx cell = Fin X0" "miny cell = Fin Y0" "maxx cell = Fin X1" "maxy cell = Fin Y1"
      by blast
    then have "cell = \<lparr>minx = Fin X0, miny = Fin Y0, maxx = Fin X1, maxy = Fin Y1\<rparr>"
      by (cases cell) simp
    with assms show False
      unfolding cell_def by blast
  qed
  let ?e1 = "\<lparr>seg_a = \<lparr>px = minx cell, py = miny cell\<rparr>, seg_b = \<lparr>px = maxx cell, py = miny cell\<rparr>\<rparr>"
  let ?e2 = "\<lparr>seg_a = \<lparr>px = maxx cell, py = miny cell\<rparr>, seg_b = \<lparr>px = maxx cell, py = maxy cell\<rparr>\<rparr>"
  let ?e3 = "\<lparr>seg_a = \<lparr>px = maxx cell, py = maxy cell\<rparr>, seg_b = \<lparr>px = minx cell, py = maxy cell\<rparr>\<rparr>"
  let ?e4 = "\<lparr>seg_a = \<lparr>px = minx cell, py = maxy cell\<rparr>, seg_b = \<lparr>px = minx cell, py = miny cell\<rparr>\<rparr>"
  have R: "CellLineSegmentIntersections g i j segment =
      push_if (push_if (push_if (push_if [] (Intersect segment ?e1)) (Intersect segment ?e2))
        (Intersect segment ?e3)) (Intersect segment ?e4)"
    by (simp add: CellLineSegmentIntersections_def Let_def cell_def)
  have one: "length (push_if [] r) \<le> 1" for r :: "Point option"
    by (cases r) simp_all
  from cases show ?thesis
  proof (elim disjE)
    assume a: "\<forall>u. minx cell \<noteq> Fin u"
    have "Intersect segment ?e1 = None" "Intersect segment ?e3 = None"
      "Intersect segment ?e4 = None"
      using a by (simp_all add: Intersect_not_finite finite_point_None)
    then show ?thesis
      unfolding R using one[of "Intersect segment ?e2"] by simp
  next
    assume a: "\<forall>u. miny cell \<noteq> Fin u"
    have "Intersect segment ?e1 = None" "Intersect segment ?e2 = None"
      "Intersect segment ?e4 = None"
      using a by (simp_all add: Intersect_not_finite finite_point_None_y)
    then show ?thesis
      unfolding R using one[of "Intersect segment ?e3"] by simp
  next
    assume a: "\<forall>u. maxx cell \<noteq> Fin u"
    have "Intersect segment ?e1 = None" "Intersect segment ?e2 = None"
      "Intersect segment ?e3 = None"
      using a by (simp_all add: Intersect_not_finite finite_point_None)
    then show ?thesis
      unfolding R using one[of "Intersect segment ?e4"] by simp
  next
    assume a: "\<forall>u. maxy cell \<noteq> Fin u"
    have "Intersect segment ?e2 = None" "Intersect segment ?e3 = None"
      "Intersect segment ?e4 = None"
      using a by (simp_all add: Intersect_not_finite finite_point_None_y)
    then show ?thesis
      unfolding R using one[of "Intersect segment ?e1"] by simp
  qed
qed

text \<open>
  Claim C9, as the claim states it, fails: the collection can hold more than two points
  for a segment that is collinear with no edge. The segment from \<open>(1, 2)\<close> to \<open>(4, 5)\<close>
  passes through the corners \<open>(2, 3)\<close> and \<open>(3, 4)\<close> of the cell \<open>(2, 3)\<close> of the test grid;
  each corner belongs to two edges, and the collection has four entries.
\<close>

theorem CellLineSegmentIntersections_four_points:
  "CellLineSegmentIntersections test_grid 2 3 (segment_of (point 1 2) (point 4 5)) =
     [point 2 3, point 3 4, point 3 4, point 2 3]"
  by (simp add: CellLineSegmentIntersections_def CellBoundingBox_def float_of_int_def
      Intersect_def Let_def point_def segment_of_def)

text \<open>
  Claim C9, amended. For every cell \<open>(i, j)\<close> of a grid with a finite origin and positive
  finite cell dimensions and every segment with finite endpoints,
  \<^verbatim>\<open>CellLineSegmentIntersections\<close> applies the intersection test to the bottom, right, top
  and left edge of the cell, in this order, and returns the points of the successful tests:
  at most four entries, one for each edge, and among them at most two different points.
\<close>

theorem CellLineSegmentIntersections_two_distinct_points:
  assumes origin: "minx (m_bbox g) = Fin x0" "miny (m_bbox g) = Fin y0"
    and cells: "m_cell_width g = Fin cw" "0 < cw" "m_cell_height g = Fin ch" "0 < ch"
    and seg: "segment = segment_of (point a1 a2) (point b1 b2)"
  shows "CellLineSegmentIntersections g i j segment =
           List.map_filter (Intersect segment) (cell_edges (CellBoundingBox g i j)) \<and>
         length (CellLineSegmentIntersections g i j segment) \<le> 4 \<and>
         card (set (CellLineSegmentIntersections g i j segment)) \<le> 2"
proof -
  let ?R = "CellLineSegmentIntersections g i j segment"
  have eq: "?R = List.map_filter (Intersect segment) (cell_edges (CellBoundingBox g i j))"
    by (rule CellLineSegmentIntersections_edges)
  have len: "length ?R \<le> 4"
  proof -
    have "length ?R \<le> length (cell_edges (CellBoundingBox g i j))"
      unfolding eq List.map_filter_def by simp
    then show ?thesis by (simp add: cell_edges_def)
  qed
  have "card (set ?R) \<le> 2"
  proof (cases "\<exists>X0 Y0 X1 Y1. CellBoundingBox g i j =
      \<lparr>minx = Fin X0, miny = Fin Y0, maxx = Fin X1, maxy = Fin Y1\<rparr>")
    case True
    then obtain X0 Y0 X1 Y1 where cell: "CellBoundingBox g i j =
        \<lparr>minx = Fin X0, miny = Fin Y0, maxx = Fin X1, maxy = Fin Y1\<rparr>"
      by blast
    have hit: "\<exists>t. p = point (a1 + (b1 - a1) * t) (a2 + (b2 - a2) * t) \<and>
        boundary_hit (min X0 X1) (min Y0 Y1) (max X0 X1) (max Y0 Y1)
          a1 a2 (b1 - a1) (b2 - a2) t" if "p \<in> set ?R" for p
    proof -
      from that obtain e where "e \<in> set (cell_edges (CellBoundingBox g i j))"
        "Intersect segment e = Some p"
        unfolding eq by (auto simp: List.map_filter_def)
      then show ?thesis
        unfolding cell seg by (rule edge_hit)
    qed
    show ?thesis
    proof (rule at_most_two)
      show "finite (set ?R)" by simp
    next
      fix p q r
      assume "p \<in> set ?R" "q \<in> set ?R" "r \<in> set ?R"
      then obtain tp tq tr where
        "p = point (a1 + (b1 - a1) * tp) (a2 + (b2 - a2) * tp)"
        "boundary_hit (min X0 X1) (min Y0 Y1) (max X0 X1) (max Y0 Y1)
           a1 a2 (b1 - a1) (b2 - a2) tp"
        "q = point (a1 + (b1 - a1) * tq) (a2 + (b2 - a2) * tq)"
        "boundary_hit (min X0 X1) (min Y0 Y1) (max X0 X1) (max Y0 Y1)
           a1 a2 (b1 - a1) (b2 - a2) tq"
        "r = point (a1 + (b1 - a1) * tr) (a2 + (b2 - a2) * tr)"
        "boundary_hit (min X0 X1) (min Y0 Y1) (max X0 X1) (max Y0 Y1)
           a1 a2 (b1 - a1) (b2 - a2) tr"
        using hit by metis
      then show "p = q \<or> q = r \<or> p = r"
        using hits_at_most_two_parameters[of "min X0 X1" "min Y0 Y1" "max X0 X1" "max Y0 Y1"
            a1 a2 "b1 - a1" "b2 - a2" tp tq tr]
        by auto
    qed
  next
    case False
    have "card (set ?R) \<le> length ?R"
      by (rule card_length)
    also have "\<dots> \<le> 1"
      using False by (rule not_finite_cell_at_most_one)
    finally show ?thesis by simp
  qed
  with eq len show ?thesis by simp
qed

text \<open>
  Claim C9, amended, at the cell \<open>(0, 0)\<close> of the test grid and the segment from
  \<open>(-1, -1)\<close> to \<open>(2, 2)\<close> through two of its corners: four entries, two different points.
\<close>

theorem CellLineSegmentIntersections_two_distinct_points_witness:
  "CellLineSegmentIntersections test_grid 0 0 (segment_of (point (- 1) (- 1)) (point 2 2)) =
     [point 0 0, point 1 1, point 1 1, point 0 0] \<and>
   length (CellLineSegmentIntersections test_grid 0 0
     (segment_of (point (- 1) (- 1)) (point 2 2))) \<le> 4 \<and>
   card (set (CellLineSegmentIntersections test_grid 0 0
     (segment_of (point (- 1) (- 1)) (point 2 2)))) \<le> 2"
proof -
  let ?R = "CellLineSegmentIntersections test_grid 0 0
    (segment_of (point (- 1) (- 1)) (point 2 2))"
  have v: "?R = [point 0 0, point 1 1, point 1 1, point 0 0]"
    by (simp add: CellLineSegmentIntersections_def CellBoundingBox_def float_of_int_def
        Intersect_def Let_def point_def segment_of_def)
  have t: "?R = List.map_filter (Intersect (segment_of (point (- 1) (- 1)) (point 2 2)))
        (cell_edges (CellBoundingBox test_grid 0 0)) \<and>
      length ?R \<le> 4 \<and> card (set ?R) \<le> 2"
    by (rule CellLineSegmentIntersections_two_distinct_points
        [of test_grid 0 0 1 1 _ "- 1" "- 1" 2 2]) simp_all
  from v t show ?thesis by blast
qed

end
